theory Spec2Isabelle
  imports Complex_Main "HOL-Library.AList"
begin

section \<open>Texts\<close>

text \<open>
  A Python \<open>str\<close> is modelled by the list of its UTF-8 bytes, so that the empty
  text is the empty list and equal texts are equal lists. \<open>str.strip()\<close> and
  \<open>str.lower()\<close> are defined by the Unicode tables of the interpreter; like
  \<open>float()\<close> they are parameters of the model, named \<open>str_strip\<close> and \<open>str_lower\<close>
  wherever a function of the scripts calls them, and every theorem holds for whatever
  functions they are.
\<close>

text \<open>
  \<open>TAG_PATTERN = re.compile(r"^[A-Za-z0-9_-]+$")\<close>, used through \<open>fullmatch\<close>: the
  text is not empty and each character is a letter, a digit, an underscore or a hyphen of
  ASCII (a character beyond ASCII has bytes from 128 on, none of which is in the class).
\<close>

definition tag_char :: "char \<Rightarrow> bool" where
  "tag_char c =
     (let n = (of_char c :: nat) in
        (65 \<le> n \<and> n \<le> 90) \<or> (97 \<le> n \<and> n \<le> 122) \<or> (48 \<le> n \<and> n \<le> 57)
        \<or> n = 95 \<or> n = 45)"

definition TAG_PATTERN_fullmatch :: "string \<Rightarrow> bool" where
  "TAG_PATTERN_fullmatch t = (t \<noteq> [] \<and> list_all tag_char t)"

section \<open>The outside world: requests, sleeps, responses\<close>

text \<open>
  Every effect of a run that the claims speak of is an event of a trace: an HTTP request
  sent (\<open>requests.get/patch/post\<close>) or a blocking wait (\<open>time.sleep\<close>). A function of
  the scripts takes the trace so far and returns its result with the extended trace.
  Log lines are not events: \<open>fetch_location_lookup\<close> and \<open>load_locations_from_csv\<close>
  return the warnings they log, and the other log calls are left out.
\<close>

record location_payload =
  res_id :: string
  res_name :: string
  res_lat :: real
  res_lng :: real

datatype request =
    GET_locations
  | GET_device_tags
  | PATCH_atlas string string
  | POST_device_tags string string
  | GET_nominatim string
  | POST_location location_payload

datatype event = Request request | Sleep real

type_synonym trace = "event list"

text \<open>
  A JSON value, as far as the scripts look at one: they take its truth value
  (\<open>if item.get("name")\<close>), its text (\<open>str(v)\<close>) and its number (\<open>float(v)\<close>). A
  string has all three from its text; any other value (null, a boolean, a number, a list,
  an object) is given by the three results, the number being \<open>None\<close> where \<open>float\<close>
  raises. An object is a dictionary from its keys to its values.
\<close>

datatype json_value = JStr string | JNonStr bool string "real option"

definition py_truth :: "json_value \<Rightarrow> bool" where
  "py_truth v = (case v of JStr s \<Rightarrow> s \<noteq> [] | JNonStr t s f \<Rightarrow> t)"

definition py_str :: "json_value \<Rightarrow> string" where
  "py_str v = (case v of JStr s \<Rightarrow> s | JNonStr t s f \<Rightarrow> s)"

definition py_float :: "(string \<Rightarrow> real option) \<Rightarrow> json_value \<Rightarrow> real option" where
  "py_float to_float v = (case v of JStr s \<Rightarrow> to_float s | JNonStr t s f \<Rightarrow> f)"

type_synonym json_object = "string \<Rightarrow> json_value option"

text \<open>
  The body of a response, as far as the scripts read it. The locations endpoint and the
  geocoder answer a JSON list of objects; the device-tags endpoint answers an object,
  given by its \<open>tags\<close> entry when that entry is a list of objects. \<open>JsonObject\<close> is an
  object with at least one member. \<open>EmptyJson\<close> is a JSON value other than the empty
  list that Python takes for false (null, false, zero, the empty string, the empty
  object), \<open>OtherJson\<close> any other JSON value (true, a number, a string), and
  \<open>NotJson\<close> a body \<open>resp.json()\<close> fails to decode.
\<close>

datatype body =
    NotJson
  | JsonList "json_object list"
  | JsonObject "json_object list option"
  | EmptyJson
  | OtherJson

text \<open>The environment answers a request, given everything that happened before it.\<close>

datatype outcome = NetworkError | Response int body

type_synonym network = "trace \<Rightarrow> request \<Rightarrow> outcome"

text \<open>
  The exceptions of a run, by what raises them. The \<open>ValueError\<close> of the device loader
  for rows in error carries one line per row: the number of the row and, for a malformed
  label, the label. \<open>FloatValueError\<close> is the exception of \<open>float()\<close>: a
  \<open>ValueError\<close> on a text, a \<open>TypeError\<close> on a value that is neither a text nor a
  number. \<open>GeocodingFailed\<close> is the \<open>ValueError\<close> after the loop of
  \<open>geocode_address\<close>.
\<close>

datatype row_error = MissingDeviceLocation nat | InvalidTag nat string

datatype error =
    OSError
  | MissingColumns "string list"
  | ValidationErrors "row_error list"
  | HTTPError int
  | RequestException
  | JSONDecodeError
  | UnexpectedShape
  | NoLocationsReturned
  | NoGeocodingResult
  | GeocodingFailed
  | KeyError
  | TypeError
  | FloatValueError

text \<open>
  \<open>Response.raise_for_status()\<close> of the \<open>requests\<close> library raises \<open>HTTPError\<close> for
  a status from 400 to 599 and returns otherwise.
\<close>

definition raise_for_status :: "int \<Rightarrow> error option" where
  "raise_for_status status =
     (if 400 \<le> status \<and> status < 600 then Some (HTTPError status) else None)"

section \<open>The mutation calls and their retry loop\<close>

text \<open>
  \<open>patch_device_location\<close>, \<open>add_tag_to_device\<close> (device loader) and
  \<open>post_single_location_to_forward\<close> (location loader) run the same \<open>while\<close> loop, up
  to the request sent, the log texts and the names of the two constants. The loop is
  written once, with the request, the maximum and the multiplier as arguments.
\<close>

definition PATCH_MAX_RETRIES :: nat where "PATCH_MAX_RETRIES = 3"
definition PATCH_RETRY_BACKOFF :: real where "PATCH_RETRY_BACKOFF = 2"
definition POST_MAX_RETRIES :: nat where "POST_MAX_RETRIES = 3"
definition POST_RETRY_BACKOFF :: real where "POST_RETRY_BACKOFF = 2"

function mutation_loop ::
  "network \<Rightarrow> request \<Rightarrow> nat \<Rightarrow> real \<Rightarrow> nat \<Rightarrow> real \<Rightarrow> trace \<Rightarrow> (error + unit) \<times> trace"
where
  "mutation_loop net req max_retries backoff attempt delay tr =
     (if attempt \<le> max_retries then
        (let tr1 = tr @ [Request req] in
         case net tr req of
           NetworkError \<Rightarrow>
             if attempt = max_retries then (Inl RequestException, tr1)
             else mutation_loop net req max_retries backoff (attempt + 1) (delay * backoff)
                    (tr1 @ [Sleep delay])
         | Response status_code text \<Rightarrow>
             (case (if 400 \<le> status_code \<and> status_code < 500
                    then raise_for_status status_code else None) of
                Some e \<Rightarrow> (Inl e, tr1)
              | None \<Rightarrow>
                  if status_code \<ge> 500 \<or> status_code = 429 then
                    (case (if attempt = max_retries
                           then raise_for_status status_code else None) of
                       Some e \<Rightarrow> (Inl e, tr1)
                     | None \<Rightarrow>
                         mutation_loop net req max_retries backoff (attempt + 1)
                           (delay * backoff) (tr1 @ [Sleep delay]))
                  else
                    (case raise_for_status status_code of
                       Some e \<Rightarrow> (Inl e, tr1)
                     | None \<Rightarrow> (Inr (), tr1))))
      else (Inr (), tr))"
  by pat_completeness auto
termination
  by (relation "measure (\<lambda>(net, req, max_retries, backoff, attempt, delay, tr).
                   max_retries + 1 - attempt)") auto

declare mutation_loop.simps [simp del]

definition patch_device_location ::
  "network \<Rightarrow> string \<Rightarrow> string \<Rightarrow> bool \<Rightarrow> trace \<Rightarrow> (error + unit) \<times> trace" where
  "patch_device_location net device location_id dry_run tr =
     (if dry_run then (Inr (), tr)
      else mutation_loop net (PATCH_atlas device location_id)
             PATCH_MAX_RETRIES PATCH_RETRY_BACKOFF 1 1 tr)"

definition add_tag_to_device ::
  "network \<Rightarrow> string \<Rightarrow> string \<Rightarrow> bool \<Rightarrow> trace \<Rightarrow> (error + unit) \<times> trace" where
  "add_tag_to_device net device tag dry_run tr =
     (if dry_run then (Inr (), tr)
      else mutation_loop net (POST_device_tags device tag)
             PATCH_MAX_RETRIES PATCH_RETRY_BACKOFF 1 1 tr)"

definition post_single_location_to_forward ::
  "network \<Rightarrow> location_payload \<Rightarrow> trace \<Rightarrow> (error + unit) \<times> trace" where
  "post_single_location_to_forward net location tr =
     mutation_loop net (POST_location location) POST_MAX_RETRIES POST_RETRY_BACKOFF 1 1 tr"

section \<open>The device loader\<close>

subsection \<open>Reading the CSV file\<close>

text \<open>
  \<open>csv.DictReader\<close> is taken at its interface: the names of the header line and one
  dictionary per data row, where a short row has no value for a column (\<open>None\<close>).
  A file that cannot be opened is \<open>None\<close>. The dictionaries the loader builds are
  records: \<open>d_device\<close>, \<open>d_location\<close> and \<open>d_tag\<close> stand for the keys
  \<open>"device"\<close>, \<open>"location"\<close> and \<open>"tag"\<close>.
\<close>

type_synonym csv_row = "string \<Rightarrow> string option"

record csv_file =
  fieldnames :: "string list"
  csv_rows :: "csv_row list"

record device_entry =
  d_device :: string
  d_location :: string
  d_tag :: string

definition row_get :: "csv_row \<Rightarrow> string \<Rightarrow> string" where
  \<comment> \<open>\<open>(row.get(k) or "")\<close>\<close>
  "row_get row k = (case row k of None \<Rightarrow> [] | Some v \<Rightarrow> v)"

fun load_device_rows ::
  "(string \<Rightarrow> string) \<Rightarrow> bool \<Rightarrow> nat \<Rightarrow> csv_row list \<Rightarrow> device_entry list \<Rightarrow> row_error list
     \<Rightarrow> device_entry list \<times> row_error list"
where
  "load_device_rows str_strip has_tag_col idx [] devices errors = (devices, errors)"
| "load_device_rows str_strip has_tag_col idx (row # rest) devices errors =
     (let dev = str_strip (row_get row ''device'');
          location_name = str_strip (row_get row ''location'');
          tg = (if has_tag_col then str_strip (row_get row ''tag'') else [])
      in
        if dev = [] \<or> location_name = [] then
          load_device_rows str_strip has_tag_col (idx + 1) rest devices
            (errors @ [MissingDeviceLocation idx])
        else if tg \<noteq> [] \<and> \<not> TAG_PATTERN_fullmatch tg then
          load_device_rows str_strip has_tag_col (idx + 1) rest devices (errors @ [InvalidTag idx tg])
        else
          load_device_rows str_strip has_tag_col (idx + 1) rest
            (devices @ [\<lparr>d_device = dev, d_location = location_name, d_tag = tg\<rparr>]) errors)"

definition load_devices_from_csv ::
  "(string \<Rightarrow> string) \<Rightarrow> csv_file option \<Rightarrow> error + device_entry list" where
  "load_devices_from_csv str_strip csv =
     (case csv of
        None \<Rightarrow> Inl OSError
      | Some f \<Rightarrow>
          (let missing = filter (\<lambda>c. c \<notin> set (fieldnames f)) [''device'', ''location'']
           in
             if missing \<noteq> [] then Inl (MissingColumns missing)
             else
               (let has_tag_col = (''tag'' \<in> set (fieldnames f));
                    (devices, errors) = load_device_rows str_strip has_tag_col 2 (csv_rows f) [] []
                in if errors \<noteq> [] then Inl (ValidationErrors errors) else Inr devices)))"

subsection \<open>The two lookups fetched once per run\<close>

text \<open>
  \<open>name_to_id\<close> is a Python dictionary: an association list in insertion order, where
  storing under a key that is present replaces its value in place.
\<close>

datatype warning =
    DuplicateLocationName string string string
  | SkippingIncompleteRow
  | InvalidLat string string
  | InvalidLng string string

definition obj_get :: "json_object \<Rightarrow> string \<Rightarrow> string" where
  \<comment> \<open>\<open>str(obj.get(k, ""))\<close>\<close>
  "obj_get obj k = (case obj k of None \<Rightarrow> [] | Some v \<Rightarrow> py_str v)"

definition obj_truth :: "json_object \<Rightarrow> string \<Rightarrow> bool" where
  \<comment> \<open>the truth value of \<open>obj.get(k)\<close>\<close>
  "obj_truth obj k = (case obj k of None \<Rightarrow> False | Some v \<Rightarrow> py_truth v)"

fun build_name_to_id ::
  "(string \<Rightarrow> string) \<Rightarrow> (string \<Rightarrow> string) \<Rightarrow> json_object list \<Rightarrow> (string \<times> string) list \<times> warning list
     \<Rightarrow> (string \<times> string) list \<times> warning list"
where
  "build_name_to_id str_strip str_lower [] acc = acc"
| "build_name_to_id str_strip str_lower (loc # rest) (name_to_id, warnings) =
     (let loc_id = str_strip (obj_get loc ''id'');
          name = str_strip (obj_get loc ''name'')
      in
        if loc_id = [] \<or> name = [] then build_name_to_id str_strip str_lower rest (name_to_id, warnings)
        else
          (let key = str_lower name;
               warnings1 =
                 (case map_of name_to_id key of
                    Some old \<Rightarrow>
                      if old \<noteq> loc_id
                      then warnings @ [DuplicateLocationName name old loc_id]
                      else warnings
                  | None \<Rightarrow> warnings)
           in build_name_to_id str_strip str_lower rest (AList.update key loc_id name_to_id, warnings1)))"

definition fetch_location_lookup ::
  "(string \<Rightarrow> string) \<Rightarrow> (string \<Rightarrow> string) \<Rightarrow> network \<Rightarrow> trace
     \<Rightarrow> (error + (string \<times> string) list \<times> warning list) \<times> trace" where
  "fetch_location_lookup str_strip str_lower net tr =
     (let tr1 = tr @ [Request GET_locations] in
      case net tr GET_locations of
        NetworkError \<Rightarrow> (Inl RequestException, tr1)
      | Response status_code b \<Rightarrow>
          (case raise_for_status status_code of
             Some e \<Rightarrow> (Inl e, tr1)
           | None \<Rightarrow>
               (case b of
                  NotJson \<Rightarrow> (Inl JSONDecodeError, tr1)
                | JsonList data \<Rightarrow>
                    (let (name_to_id, warnings) = build_name_to_id str_strip str_lower data ([], [])
                     in if name_to_id = [] then (Inl NoLocationsReturned, tr1)
                        else (Inr (name_to_id, warnings), tr1))
                | _ \<Rightarrow> (Inl UnexpectedShape, tr1))))"

definition fetch_existing_tags ::
  "(string \<Rightarrow> string) \<Rightarrow> (string \<Rightarrow> string) \<Rightarrow> network \<Rightarrow> trace
     \<Rightarrow> (error + string set) \<times> trace" where
  "fetch_existing_tags str_strip str_lower net tr =
     (let tr1 = tr @ [Request GET_device_tags] in
      case net tr GET_device_tags of
        NetworkError \<Rightarrow> (Inl RequestException, tr1)
      | Response status_code b \<Rightarrow>
          (case raise_for_status status_code of
             Some e \<Rightarrow> (Inl e, tr1)
           | None \<Rightarrow>
               (case b of
                  NotJson \<Rightarrow> (Inl JSONDecodeError, tr1)
                | JsonObject (Some tags) \<Rightarrow>
                    (Inr (set (map (\<lambda>item. str_lower (str_strip (obj_get item ''name'')))
                                (filter (\<lambda>item. obj_truth item ''name'') tags))), tr1)
                | _ \<Rightarrow> (Inl UnexpectedShape, tr1))))"

subsection \<open>The driver\<close>

text \<open>
  The body of the \<open>for entry in devices\<close> loop of \<open>main\<close>, on the failure counter and
  the trace, and the loop itself. \<open>apply_mutations\<close> is the \<open>try\<close> block at the end of
  the body: any exception of the two calls is caught there and counted once.
\<close>

definition apply_mutations ::
  "network \<Rightarrow> bool \<Rightarrow> device_entry \<Rightarrow> string \<Rightarrow> nat \<times> trace \<Rightarrow> nat \<times> trace" where
  "apply_mutations net dry_run entry location_id st =
     (case st of (failures, tr) \<Rightarrow>
        (case patch_device_location net (d_device entry) location_id dry_run tr of
           (Inl e, tr1) \<Rightarrow> (failures + 1, tr1)
         | (Inr u, tr1) \<Rightarrow>
             if d_tag entry \<noteq> [] then
               (case add_tag_to_device net (d_device entry) (d_tag entry) dry_run tr1 of
                  (Inl e, tr2) \<Rightarrow> (failures + 1, tr2)
                | (Inr u, tr2) \<Rightarrow> (failures, tr2))
             else (failures, tr1)))"

definition process_entry ::
  "(string \<Rightarrow> string) \<Rightarrow> network \<Rightarrow> bool \<Rightarrow> (string \<times> string) list \<Rightarrow> string set \<Rightarrow> device_entry
     \<Rightarrow> nat \<times> trace \<Rightarrow> nat \<times> trace"
where
  "process_entry str_lower net dry_run name_to_id existing_tags entry st =
     (case st of (failures, tr) \<Rightarrow>
        if d_tag entry \<noteq> [] \<and> str_lower (d_tag entry) \<notin> existing_tags then (failures + 1, tr)
        else
          (case map_of name_to_id (str_lower (d_location entry)) of
             None \<Rightarrow> (failures + 1, tr)
           | Some location_id \<Rightarrow>
               if location_id = [] then (failures + 1, tr)
               else apply_mutations net dry_run entry location_id (failures, tr)))"

fun process_devices ::
  "(string \<Rightarrow> string) \<Rightarrow> network \<Rightarrow> bool \<Rightarrow> (string \<times> string) list \<Rightarrow> string set \<Rightarrow> device_entry list
     \<Rightarrow> nat \<times> trace \<Rightarrow> nat \<times> trace"
where
  "process_devices str_lower net dry_run name_to_id existing_tags [] st = st"
| "process_devices str_lower net dry_run name_to_id existing_tags (entry # rest) st =
     process_devices str_lower net dry_run name_to_id existing_tags rest
       (process_entry str_lower net dry_run name_to_id existing_tags entry st)"

text \<open>
  \<open>main\<close> of the device loader, from the loading of the file on: the exit status of the
  process and the trace. \<open>sys.exit(1)\<close> gives status 1, returning from \<open>main\<close> gives 0.
  \<open>device_setup\<close> is the part of \<open>main\<close> before the loop: the three \<open>try\<close> blocks
  that load the file and fetch the two lookups, each of which ends the run on an exception.
  What runs before them (the check of the environment variables when the module is
  loaded, the command line, the set-up of logging) is left out, here and for the location
  loader.
\<close>

definition device_setup ::
  "(string \<Rightarrow> string) \<Rightarrow> (string \<Rightarrow> string) \<Rightarrow> network \<Rightarrow> csv_file option \<Rightarrow> trace
     \<Rightarrow> (error + device_entry list \<times> (string \<times> string) list \<times> string set) \<times> trace"
where
  "device_setup str_strip str_lower net csv tr =
     (case load_devices_from_csv str_strip csv of
        Inl e \<Rightarrow> (Inl e, tr)
      | Inr devices \<Rightarrow>
          (case fetch_location_lookup str_strip str_lower net tr of
             (Inl e, tr1) \<Rightarrow> (Inl e, tr1)
           | (Inr (name_to_id, warnings), tr1) \<Rightarrow>
               (let tags_in_csv = set (map d_tag (filter (\<lambda>entry. d_tag entry \<noteq> []) devices))
                in
                  case (if tags_in_csv \<noteq> {} then fetch_existing_tags str_strip str_lower net tr1
                        else (Inr {}, tr1)) of
                    (Inl e, tr2) \<Rightarrow> (Inl e, tr2)
                  | (Inr existing_tags, tr2) \<Rightarrow>
                      (Inr (devices, name_to_id, existing_tags), tr2))))"

definition device_main ::
  "(string \<Rightarrow> string) \<Rightarrow> (string \<Rightarrow> string) \<Rightarrow> network \<Rightarrow> bool \<Rightarrow> csv_file option \<Rightarrow> trace
     \<Rightarrow> nat \<times> trace" where
  "device_main str_strip str_lower net dry_run csv tr =
     (case device_setup str_strip str_lower net csv tr of
        (Inl e, tr1) \<Rightarrow> (1, tr1)
      | (Inr (devices, name_to_id, existing_tags), tr1) \<Rightarrow>
          (case process_devices str_lower net dry_run name_to_id existing_tags devices (0, tr1) of
             (failures, tr2) \<Rightarrow> (if failures \<noteq> 0 then 1 else 0, tr2)))"

section \<open>The location loader\<close>

subsection \<open>Geocoding one address\<close>

text \<open>
  \<open>float()\<close> on a text is a parameter \<open>to_float\<close> of the model: \<open>None\<close> where Python
  raises \<open>ValueError\<close>. \<open>geocode_attempt\<close> is the body of the \<open>try\<close> block of
  \<open>geocode_address\<close> after the request has been answered; every exception it raises is
  caught by the \<open>except Exception\<close> clause of the loop. A body that Python takes for
  false raises the \<open>ValueError\<close> of \<open>if not data\<close>; on any other body that is not a
  list, \<open>data[0]\<close> or \<open>first["lat"]\<close> raises (\<open>KeyError\<close> on an object,
  \<open>TypeError\<close> otherwise).
\<close>

definition GEOCODE_DELAY_SECONDS :: real where "GEOCODE_DELAY_SECONDS = 1"
definition GEOCODE_MAX_RETRIES :: nat where "GEOCODE_MAX_RETRIES = 3"
definition GEOCODE_RETRY_BACKOFF :: real where "GEOCODE_RETRY_BACKOFF = 2"

definition geocode_attempt :: "(string \<Rightarrow> real option) \<Rightarrow> outcome \<Rightarrow> error + real \<times> real" where
  "geocode_attempt to_float answer =
     (case answer of
        NetworkError \<Rightarrow> Inl RequestException
      | Response status_code b \<Rightarrow>
          (case raise_for_status status_code of
             Some e \<Rightarrow> Inl e
           | None \<Rightarrow>
               (case b of
                  NotJson \<Rightarrow> Inl JSONDecodeError
                | JsonList [] \<Rightarrow> Inl NoGeocodingResult
                | EmptyJson \<Rightarrow> Inl NoGeocodingResult
                | JsonList (first # others) \<Rightarrow>
                    (case first ''lat'' of
                       None \<Rightarrow> Inl KeyError
                     | Some lat_value \<Rightarrow>
                         (case py_float to_float lat_value of
                            None \<Rightarrow> Inl FloatValueError
                          | Some lat \<Rightarrow>
                              (case first ''lon'' of
                                 None \<Rightarrow> Inl KeyError
                               | Some lon_value \<Rightarrow>
                                   (case py_float to_float lon_value of
                                      None \<Rightarrow> Inl FloatValueError
                                    | Some lng \<Rightarrow> Inr (lat, lng)))))
                | JsonObject tags \<Rightarrow> Inl KeyError
                | OtherJson \<Rightarrow> Inl TypeError)))"

function geocode_address_loop ::
  "network \<Rightarrow> (string \<Rightarrow> real option) \<Rightarrow> string \<Rightarrow> nat \<Rightarrow> real \<Rightarrow> trace
     \<Rightarrow> (error + real \<times> real) \<times> trace"
where
  "geocode_address_loop net to_float address attempt delay tr =
     (if attempt \<le> GEOCODE_MAX_RETRIES then
        (let tr1 = tr @ [Request (GET_nominatim address)] in
         case geocode_attempt to_float (net tr (GET_nominatim address)) of
           Inr coords \<Rightarrow> (Inr coords, tr1)
         | Inl e \<Rightarrow>
             if attempt = GEOCODE_MAX_RETRIES then (Inl e, tr1)
             else geocode_address_loop net to_float address (attempt + 1)
                    (delay * GEOCODE_RETRY_BACKOFF) (tr1 @ [Sleep delay]))
      else (Inl GeocodingFailed, tr))"
  by pat_completeness auto
termination
  by (relation "measure (\<lambda>(net, to_float, address, attempt, delay, tr).
                   GEOCODE_MAX_RETRIES + 1 - attempt)") auto

declare geocode_address_loop.simps [simp del]

definition geocode_address ::
  "network \<Rightarrow> (string \<Rightarrow> real option) \<Rightarrow> string \<Rightarrow> trace \<Rightarrow> (error + real \<times> real) \<times> trace"
where
  "geocode_address net to_float address tr =
     geocode_address_loop net to_float address 1 GEOCODE_DELAY_SECONDS tr"

subsection \<open>Reading the CSV file\<close>

record location_row =
  loc_id :: string
  loc_name :: string
  loc_address :: string
  loc_lat :: "real option"
  loc_lng :: "real option"

fun load_location_rows ::
  "(string \<Rightarrow> string) \<Rightarrow> (string \<Rightarrow> real option) \<Rightarrow> bool \<Rightarrow> bool \<Rightarrow> csv_row list
     \<Rightarrow> location_row list \<times> warning list \<Rightarrow> location_row list \<times> warning list"
where
  "load_location_rows str_strip to_float has_lat has_lng [] acc = acc"
| "load_location_rows str_strip to_float has_lat has_lng (row # rest) (locations, warnings) =
     (let lid = str_strip (row_get row ''id'');
          name = str_strip (row_get row ''name'');
          address = str_strip (row_get row ''address'')
      in
        if lid = [] \<or> name = [] \<or> address = [] then
          load_location_rows str_strip to_float has_lat has_lng rest
            (locations, warnings @ [SkippingIncompleteRow])
        else
          (let (lat, warnings1) =
                 (if has_lat then
                    (let lat_val = str_strip (row_get row ''lat'') in
                     if lat_val \<noteq> [] then
                       (case to_float lat_val of
                          Some v \<Rightarrow> (Some v, warnings)
                        | None \<Rightarrow> (None, warnings @ [InvalidLat lat_val lid]))
                     else (None, warnings))
                  else (None, warnings));
               (lng, warnings2) =
                 (if has_lng then
                    (let lng_val = str_strip (row_get row ''lng'') in
                     if lng_val \<noteq> [] then
                       (case to_float lng_val of
                          Some v \<Rightarrow> (Some v, warnings1)
                        | None \<Rightarrow> (None, warnings1 @ [InvalidLng lng_val lid]))
                     else (None, warnings1))
                  else (None, warnings1))
           in
             load_location_rows str_strip to_float has_lat has_lng rest
               (locations @
                  [\<lparr>loc_id = lid, loc_name = name, loc_address = address,
                    loc_lat = lat, loc_lng = lng\<rparr>],
                warnings2)))"

definition load_locations_from_csv ::
  "(string \<Rightarrow> string) \<Rightarrow> (string \<Rightarrow> real option) \<Rightarrow> csv_file option \<Rightarrow> error + location_row list \<times> warning list"
where
  "load_locations_from_csv str_strip to_float csv =
     (case csv of
        None \<Rightarrow> Inl OSError
      | Some f \<Rightarrow>
          (let missing =
                 filter (\<lambda>c. c \<notin> set (fieldnames f)) [''address'', ''id'', ''name'']
           in
             if missing \<noteq> [] then Inl (MissingColumns missing)
             else
               Inr (load_location_rows str_strip to_float
                      (''lat'' \<in> set (fieldnames f)) (''lng'' \<in> set (fieldnames f))
                      (csv_rows f) ([], []))))"

subsection \<open>Coordinates for every record\<close>

text \<open>
  The body of the \<open>for\<close> loop of \<open>geocode_locations\<close>, on the list of results and the
  trace, and the loop itself.
\<close>

definition geocode_one ::
  "network \<Rightarrow> (string \<Rightarrow> real option) \<Rightarrow> location_row
     \<Rightarrow> location_payload list \<times> trace \<Rightarrow> location_payload list \<times> trace"
where
  "geocode_one net to_float loc st =
     (case st of (results, tr) \<Rightarrow>
        if loc_lat loc \<noteq> None \<and> loc_lng loc \<noteq> None then
          (results @
             [\<lparr>res_id = loc_id loc, res_name = loc_name loc,
               res_lat = the (loc_lat loc), res_lng = the (loc_lng loc)\<rparr>],
           tr)
        else
          (case geocode_address net to_float (loc_address loc) tr of
             (Inr (lat, lng), tr1) \<Rightarrow>
               (results @
                  [\<lparr>res_id = loc_id loc, res_name = loc_name loc,
                    res_lat = lat, res_lng = lng\<rparr>],
                tr1 @ [Sleep GEOCODE_DELAY_SECONDS])
           | (Inl e, tr1) \<Rightarrow> (results, tr1 @ [Sleep GEOCODE_DELAY_SECONDS])))"

fun geocode_locations_loop ::
  "network \<Rightarrow> (string \<Rightarrow> real option) \<Rightarrow> location_row list
     \<Rightarrow> location_payload list \<times> trace \<Rightarrow> location_payload list \<times> trace"
where
  "geocode_locations_loop net to_float [] st = st"
| "geocode_locations_loop net to_float (loc # rest) st =
     geocode_locations_loop net to_float rest (geocode_one net to_float loc st)"

definition geocode_locations ::
  "network \<Rightarrow> (string \<Rightarrow> real option) \<Rightarrow> location_row list \<Rightarrow> trace
     \<Rightarrow> location_payload list \<times> trace"
where
  "geocode_locations net to_float locations tr =
     geocode_locations_loop net to_float locations ([], tr)"

subsection \<open>The driver\<close>

text \<open>
  The \<open>for loc in locs_with_coords\<close> loop of \<open>main\<close>: each exception of a POST is
  logged and the loop goes on; nothing is counted.
\<close>

fun post_locations :: "network \<Rightarrow> location_payload list \<Rightarrow> trace \<Rightarrow> trace" where
  "post_locations net [] tr = tr"
| "post_locations net (loc # rest) tr =
     (case post_single_location_to_forward net loc tr of
        (Inl e, tr1) \<Rightarrow> post_locations net rest tr1
      | (Inr u, tr1) \<Rightarrow> post_locations net rest tr1)"

text \<open>
  \<open>main\<close> of the location loader, from the loading of the file on. \<open>write_ok\<close> says
  whether \<open>write_payload_to_file\<close> could write the dry-run file.
\<close>

definition locater_main ::
  "(string \<Rightarrow> string) \<Rightarrow> network \<Rightarrow> (string \<Rightarrow> real option) \<Rightarrow> bool \<Rightarrow> bool \<Rightarrow> csv_file option \<Rightarrow> trace
     \<Rightarrow> nat \<times> trace"
where
  "locater_main str_strip net to_float dry_run write_ok csv tr =
     (case load_locations_from_csv str_strip to_float csv of
        Inl e \<Rightarrow> (1, tr)
      | Inr (locs_raw, warnings) \<Rightarrow>
          if locs_raw = [] then (1, tr)
          else
            (case geocode_locations net to_float locs_raw tr of
               (locs_with_coords, tr1) \<Rightarrow>
                 if locs_with_coords = [] then (1, tr1)
                 else if dry_run then (if write_ok then (0, tr1) else (1, tr1))
                 else (0, post_locations net locs_with_coords tr1)))"

section \<open>Environments and inputs for the examples\<close>

text \<open>
  The examples are texts of ASCII characters only. On such texts \<open>str.strip()\<close>
  removes the characters for which \<open>str.isspace\<close> holds (tab to carriage return, the
  four separators 28 to 31, and the blank) from both ends, and \<open>str.lower()\<close> maps
  \<open>A\<close> to \<open>Z\<close> onto \<open>a\<close> to \<open>z\<close>. The two functions below are these restrictions;
  they stand for the parameters \<open>str_strip\<close> and \<open>str_lower\<close> in the examples and
  nowhere else.
\<close>

definition ascii_is_space :: "char \<Rightarrow> bool" where
  "ascii_is_space c =
     (let n = (of_char c :: nat) in (9 \<le> n \<and> n \<le> 13) \<or> (28 \<le> n \<and> n \<le> 32))"

definition ascii_strip :: "string \<Rightarrow> string" where
  "ascii_strip s = rev (dropWhile ascii_is_space (rev (dropWhile ascii_is_space s)))"

definition ascii_lower_char :: "char \<Rightarrow> char" where
  "ascii_lower_char c =
     (let n = (of_char c :: nat) in if 65 \<le> n \<and> n \<le> 90 then char_of (n + 32) else c)"

definition ascii_lower :: "string \<Rightarrow> string" where
  "ascii_lower s = map ascii_lower_char s"

definition net_always :: "outcome \<Rightarrow> network" where
  "net_always answer tr req = answer"

definition table_float :: "string \<Rightarrow> real option" where
  "table_float s = (if s = ''51'' then Some 51 else if s = ''4'' then Some 4 else None)"

text \<open>
  A remote side with two locations and one device tag, a geocoder with one candidate, and
  the status \<open>st\<close> as the answer to every mutation call.
\<close>

definition lab_net :: "int \<Rightarrow> network" where
  "lab_net st tr req =
     (case req of
        GET_locations \<Rightarrow>
          Response 200 (JsonList [map_of [(''id'', JStr ''7''), (''name'', JStr ''HQ'')],
                                  map_of [(''id'', JStr ''9''), (''name'', JStr ''Branch'')]])
      | GET_device_tags \<Rightarrow>
          Response 200 (JsonObject (Some [map_of [(''name'', JStr ''Core'')]]))
      | GET_nominatim address \<Rightarrow>
          Response 200 (JsonList [map_of [(''lat'', JStr ''51''), (''lon'', JStr ''4'')]])
      | PATCH_atlas dev lid \<Rightarrow> Response st OtherJson
      | POST_device_tags dev tg \<Rightarrow> Response st OtherJson
      | POST_location loc \<Rightarrow> Response st OtherJson)"

text \<open>
  The same remote side with a geocoder that has no candidate for any address, and one
  whose first answer is a 404 and whose later answers hold a candidate.
\<close>

definition no_candidate_net :: "int \<Rightarrow> network" where
  "no_candidate_net st tr req =
     (case req of
        GET_nominatim address \<Rightarrow> Response 200 (JsonList [])
      | _ \<Rightarrow> lab_net st tr req)"

definition second_try_net :: network where
  "second_try_net tr req =
     (if tr = [] then Response 404 NotJson
      else Response 200 (JsonList [map_of [(''lat'', JStr ''51''), (''lon'', JStr ''4'')]]))"

text \<open>A device file of two rows; the first row carries the label \<open>tg\<close>.\<close>

definition devices_csv :: "string \<Rightarrow> csv_file option" where
  "devices_csv tg =
     Some \<lparr>fieldnames = [''device'', ''location'', ''tag''],
           csv_rows = [map_of [(''device'', ''sw1''), (''location'', ''HQ''), (''tag'', tg)],
                       map_of [(''device'', ''sw2''), (''location'', ''Branch'')]]\<rparr>"

text \<open>A device file of one row for the location \<open>loc\<close>, without a label.\<close>

definition one_device_csv :: "string \<Rightarrow> csv_file option" where
  "one_device_csv loc =
     Some \<lparr>fieldnames = [''device'', ''location''],
           csv_rows = [map_of [(''device'', ''sw1''), (''location'', loc)]]\<rparr>"

text \<open>A location file of one row with the texts \<open>la\<close> and \<open>lo\<close> in its coordinate columns.\<close>

definition locations_csv :: "string \<Rightarrow> string \<Rightarrow> csv_file option" where
  "locations_csv la lo =
     Some \<lparr>fieldnames = [''id'', ''name'', ''address'', ''lat'', ''lng''],
           csv_rows = [map_of [(''id'', ''7''), (''name'', ''HQ''), (''address'', ''1 Main St''),
                               (''lat'', la), (''lng'', lo)]]\<rparr>"

text \<open>
  A remote list in which the first two entries share a name up to case and blanks, and a
  third entry has another name.
\<close>

definition two_hq_net :: network where
  "two_hq_net tr req =
     Response 200 (JsonList [map_of [(''id'', JStr ''7''), (''name'', JStr ''HQ'')],
                             map_of [(''id'', JStr ''9''), (''name'', JStr '' hq '')],
                             map_of [(''id'', JStr ''3''), (''name'', JStr ''Lab'')]])"

section \<open>Evaluating the examples\<close>

lemmas text_eval = ascii_strip_def ascii_is_space_def ascii_lower_def ascii_lower_char_def
  char_of_def bit_0 TAG_PATTERN_fullmatch_def tag_char_def row_get_def obj_get_def
  obj_truth_def py_str_def py_truth_def py_float_def

lemma load_devices_example:
  "load_devices_from_csv ascii_strip (devices_csv ''Core'') =
     Inr [\<lparr>d_device = ''sw1'', d_location = ''HQ'', d_tag = ''Core''\<rparr>,
          \<lparr>d_device = ''sw2'', d_location = ''Branch'', d_tag = []\<rparr>]"
  by (simp add: load_devices_from_csv_def devices_csv_def text_eval)

lemma load_devices_unknown_label_example:
  "load_devices_from_csv ascii_strip (devices_csv ''Edge'') =
     Inr [\<lparr>d_device = ''sw1'', d_location = ''HQ'', d_tag = ''Edge''\<rparr>,
          \<lparr>d_device = ''sw2'', d_location = ''Branch'', d_tag = []\<rparr>]"
  by (simp add: load_devices_from_csv_def devices_csv_def text_eval)

lemma load_devices_invalid_label_example:
  "load_devices_from_csv ascii_strip (devices_csv ''bad tag!'') =
     Inl (ValidationErrors [InvalidTag 2 ''bad tag!''])"
  by (simp add: load_devices_from_csv_def devices_csv_def text_eval)

lemma device_setup_example:
  "device_setup ascii_strip ascii_lower (lab_net st) (devices_csv ''Core'') [] =
     (Inr ([\<lparr>d_device = ''sw1'', d_location = ''HQ'', d_tag = ''Core''\<rparr>,
            \<lparr>d_device = ''sw2'', d_location = ''Branch'', d_tag = []\<rparr>],
           [(''hq'', ''7''), (''branch'', ''9'')], {''core''}),
      [Request GET_locations, Request GET_device_tags])"
  by (simp add: device_setup_def load_devices_example fetch_location_lookup_def
      fetch_existing_tags_def lab_net_def raise_for_status_def text_eval)

section \<open>Properties of the retry loop\<close>

lemma mutation_loop_client_error:
  assumes "net tr req = Response st b" and "400 \<le> st" and "st < 500" and "attempt \<le> mx"
  shows "mutation_loop net req mx bk attempt delay tr =
           (Inl (HTTPError st), tr @ [Request req])"
  using assms
  by (simp add: mutation_loop.simps [of net req mx bk attempt delay tr] raise_for_status_def)

lemma mutation_loop_server_retry:
  assumes "net tr req = Response st b" and "500 \<le> st" and "attempt < mx"
    and "nxt = attempt + 1" and "delay' = delay * bk"
  shows "mutation_loop net req mx bk attempt delay tr =
           mutation_loop net req mx bk nxt delay' (tr @ [Request req, Sleep delay])"
  using assms by (simp add: mutation_loop.simps [of net req mx bk attempt delay tr])

lemma mutation_loop_server_exhausted:
  assumes "net tr req = Response st b" and "500 \<le> st" and "st < 600"
  shows "mutation_loop net req mx bk mx delay tr = (Inl (HTTPError st), tr @ [Request req])"
  using assms
  by (simp add: mutation_loop.simps [of net req mx bk mx delay tr] raise_for_status_def)

text \<open>
  Three answers in the 500 class: three requests, a wait of 1 and then of 2 between them,
  no wait after the third, and the \<open>HTTPError\<close> of the third answer.
\<close>

lemma mutation_loop_server_error_three_attempts:
  assumes r1: "net tr req = Response s1 b1" "500 \<le> s1"
    and r2: "net (tr @ [Request req, Sleep 1]) req = Response s2 b2" "500 \<le> s2"
    and r3: "net (tr @ [Request req, Sleep 1, Request req, Sleep 2]) req = Response s3 b3"
            "500 \<le> s3" "s3 < 600"
  shows "mutation_loop net req 3 2 1 1 tr =
           (Inl (HTTPError s3),
            tr @ [Request req, Sleep 1, Request req, Sleep 2, Request req])"
proof -
  have "mutation_loop net req 3 2 1 1 tr =
        mutation_loop net req 3 2 2 2 (tr @ [Request req, Sleep 1])"
    by (rule mutation_loop_server_retry [where st = s1 and b = b1]) (use r1 in simp_all)
  also have "\<dots> =
        mutation_loop net req 3 2 3 4 ((tr @ [Request req, Sleep 1]) @ [Request req, Sleep 2])"
    by (rule mutation_loop_server_retry [where st = s2 and b = b2]) (use r2 in simp_all)
  also have "\<dots> =
        (Inl (HTTPError s3), (tr @ [Request req, Sleep 1, Request req, Sleep 2]) @ [Request req])"
    using r3 mutation_loop_server_exhausted
      [where net = net and tr = "tr @ [Request req, Sleep 1, Request req, Sleep 2]"
         and req = req and mx = 3 and bk = 2 and delay = 4]
    by simp
  finally show ?thesis by simp
qed

lemma mutation_calls_retry_server_errors:
  assumes "net tr req = Response s1 b1" "500 \<le> s1"
    and "net (tr @ [Request req, Sleep 1]) req = Response s2 b2" "500 \<le> s2"
    and "net (tr @ [Request req, Sleep 1, Request req, Sleep 2]) req = Response s3 b3"
        "500 \<le> s3" "s3 < 600"
  shows "req = PATCH_atlas dev lid \<Longrightarrow>
           patch_device_location net dev lid False tr =
             (Inl (HTTPError s3),
              tr @ [Request req, Sleep 1, Request req, Sleep 2, Request req])"
    and "req = POST_device_tags dev tg \<Longrightarrow>
           add_tag_to_device net dev tg False tr =
             (Inl (HTTPError s3),
              tr @ [Request req, Sleep 1, Request req, Sleep 2, Request req])"
    and "req = POST_location loc \<Longrightarrow>
           post_single_location_to_forward net loc tr =
             (Inl (HTTPError s3),
              tr @ [Request req, Sleep 1, Request req, Sleep 2, Request req])"
proof -
  have three: "mutation_loop net req 3 2 1 1 tr =
      (Inl (HTTPError s3), tr @ [Request req, Sleep 1, Request req, Sleep 2, Request req])"
    by (rule mutation_loop_server_error_three_attempts
          [where ?s1.0 = s1 and ?b1.0 = b1 and ?s2.0 = s2 and ?b2.0 = b2 and ?b3.0 = b3])
       (use assms in simp_all)
  show "req = PATCH_atlas dev lid \<Longrightarrow>
           patch_device_location net dev lid False tr =
             (Inl (HTTPError s3),
              tr @ [Request req, Sleep 1, Request req, Sleep 2, Request req])"
    using three by (simp add: patch_device_location_def PATCH_MAX_RETRIES_def
        PATCH_RETRY_BACKOFF_def)
  show "req = POST_device_tags dev tg \<Longrightarrow>
           add_tag_to_device net dev tg False tr =
             (Inl (HTTPError s3),
              tr @ [Request req, Sleep 1, Request req, Sleep 2, Request req])"
    using three by (simp add: add_tag_to_device_def PATCH_MAX_RETRIES_def
        PATCH_RETRY_BACKOFF_def)
  show "req = POST_location loc \<Longrightarrow>
           post_single_location_to_forward net loc tr =
             (Inl (HTTPError s3),
              tr @ [Request req, Sleep 1, Request req, Sleep 2, Request req])"
    using three by (simp add: post_single_location_to_forward_def POST_MAX_RETRIES_def
        POST_RETRY_BACKOFF_def)
qed

text \<open>
  C2. A mutation call answered with status 429 is meant to be retried (three attempts,
  waits of 1 and 2), but the test for the range 400 to 499 comes first in the loop and
  raises: the call is sent once, no wait follows, and the caller gets the \<open>HTTPError\<close>.
\<close>

theorem rate_limited_call_is_not_retried:
  "patch_device_location (net_always (Response 429 OtherJson)) ''sw1'' ''loc-7'' False []
     = (Inl (HTTPError 429), [Request (PATCH_atlas ''sw1'' ''loc-7'')])
   \<and> add_tag_to_device (net_always (Response 429 OtherJson)) ''sw1'' ''core'' False []
     = (Inl (HTTPError 429), [Request (POST_device_tags ''sw1'' ''core'')])
   \<and> post_single_location_to_forward (net_always (Response 429 OtherJson))
       \<lparr>res_id = ''7'', res_name = ''HQ'', res_lat = 1, res_lng = 2\<rparr> []
     = (Inl (HTTPError 429),
        [Request (POST_location \<lparr>res_id = ''7'', res_name = ''HQ'', res_lat = 1, res_lng = 2\<rparr>)])"
  by (simp add: patch_device_location_def add_tag_to_device_def
      post_single_location_to_forward_def PATCH_MAX_RETRIES_def POST_MAX_RETRIES_def
      mutation_loop_client_error net_always_def)

text \<open>
  C3. A mutation call whose first answer has a status from 400 to 499 sends that one
  request, waits for nothing, and signals the \<open>HTTPError\<close> to its caller. This holds
  for the three mutation calls (outside dry-run mode, where nothing is sent). More
  generally, at whatever attempt of the loop such an answer arrives, the loop ends with
  that request: nothing is sent or waited for after it.
\<close>

theorem client_error_is_fatal_at_once:
  assumes "400 \<le> st" and "st < 500"
  shows "(net tr (PATCH_atlas dev lid) = Response st b \<longrightarrow>
            patch_device_location net dev lid False tr
              = (Inl (HTTPError st), tr @ [Request (PATCH_atlas dev lid)]))
       \<and> (net tr (POST_device_tags dev tg) = Response st b \<longrightarrow>
            add_tag_to_device net dev tg False tr
              = (Inl (HTTPError st), tr @ [Request (POST_device_tags dev tg)]))
       \<and> (net tr (POST_location loc) = Response st b \<longrightarrow>
            post_single_location_to_forward net loc tr
              = (Inl (HTTPError st), tr @ [Request (POST_location loc)]))
       \<and> (net tr req = Response st b \<and> attempt \<le> max_retries \<longrightarrow>
            mutation_loop net req max_retries backoff attempt delay tr
              = (Inl (HTTPError st), tr @ [Request req]))"
  using assms
  by (simp add: patch_device_location_def add_tag_to_device_def
      post_single_location_to_forward_def PATCH_MAX_RETRIES_def POST_MAX_RETRIES_def
      mutation_loop_client_error)

theorem client_error_is_fatal_at_once_witness:
  "patch_device_location (net_always (Response 404 NotJson)) ''sw1'' ''loc-7'' False []
     = (Inl (HTTPError 404), [Request (PATCH_atlas ''sw1'' ''loc-7'')])
   \<and> add_tag_to_device (net_always (Response 404 NotJson)) ''sw1'' ''core'' False []
     = (Inl (HTTPError 404), [Request (POST_device_tags ''sw1'' ''core'')])
   \<and> post_single_location_to_forward (net_always (Response 404 NotJson))
       \<lparr>res_id = ''7'', res_name = ''HQ'', res_lat = 1, res_lng = 2\<rparr> []
     = (Inl (HTTPError 404),
        [Request (POST_location \<lparr>res_id = ''7'', res_name = ''HQ'', res_lat = 1, res_lng = 2\<rparr>)])
   \<and> mutation_loop (net_always (Response 404 NotJson)) (PATCH_atlas ''sw1'' ''loc-7'') 3 2 2 2
       [Request (PATCH_atlas ''sw1'' ''loc-7''), Sleep 1]
     = (Inl (HTTPError 404),
        [Request (PATCH_atlas ''sw1'' ''loc-7''), Sleep 1] @ [Request (PATCH_atlas ''sw1'' ''loc-7'')])"
  using client_error_is_fatal_at_once
    [of 404 "net_always (Response 404 NotJson)" "[]" "''sw1''" "''loc-7''" NotJson "''core''"
        "\<lparr>res_id = ''7'', res_name = ''HQ'', res_lat = 1, res_lng = 2\<rparr>"]
    client_error_is_fatal_at_once
    [of 404 "net_always (Response 404 NotJson)"
        "[Request (PATCH_atlas ''sw1'' ''loc-7''), Sleep 1]" "''sw1''" "''loc-7''" NotJson
        "''core''" "\<lparr>res_id = ''7'', res_name = ''HQ'', res_lat = 1, res_lng = 2\<rparr>"
        "PATCH_atlas ''sw1'' ''loc-7''" 2 3 2 2]
  by (simp add: net_always_def)

section \<open>What a mutation call adds to the trace\<close>

lemma extend_more:
  assumes "\<exists>evs. tr' = (tr @ a) @ evs \<and> set evs \<subseteq> S" and "set a \<subseteq> S"
  shows "\<exists>evs. tr' = tr @ evs \<and> set evs \<subseteq> S"
proof -
  from assms(1) obtain evs where "tr' = (tr @ a) @ evs" "set evs \<subseteq> S" by blast
  with assms(2) have "tr' = tr @ (a @ evs) \<and> set (a @ evs) \<subseteq> S" by simp
  then show ?thesis by blast
qed

lemma mutation_loop_events:
  "mutation_loop net req mx bk attempt delay tr = (r, tr') \<Longrightarrow>
     \<exists>evs. tr' = tr @ evs \<and> set evs \<subseteq> insert (Request req) (range Sleep)"
proof (induction net req mx bk attempt delay tr rule: mutation_loop.induct)
  case (1 net req mx bk attempt delay tr)
  let ?S = "insert (Request req) (range Sleep)"
  let ?next = "mutation_loop net req mx bk (attempt + 1) (delay * bk)
                 ((tr @ [Request req]) @ [Sleep delay])"
  have stop: "\<exists>evs. tr' = tr @ evs \<and> set evs \<subseteq> ?S" if "tr' = tr @ [Request req]"
    using that by simp
  have go: "\<exists>evs. tr' = tr @ evs \<and> set evs \<subseteq> ?S"
    if "\<exists>evs. tr' = ((tr @ [Request req]) @ [Sleep delay]) @ evs \<and> set evs \<subseteq> ?S"
    using extend_more [of tr' tr "[Request req, Sleep delay]" ?S] that by simp
  show ?case
  proof (cases "attempt \<le> mx")
    case False
    with "1.prems" have "tr' = tr"
      by (subst (asm) mutation_loop.simps) simp
    then show ?thesis by simp
  next
    case le: True
    show ?thesis
    proof (cases "net tr req")
      case NetworkError
      show ?thesis
      proof (cases "attempt = mx")
        case True
        with "1.prems" le NetworkError show ?thesis
          by (intro stop) (subst (asm) mutation_loop.simps, simp)
      next
        case False
        with "1.prems" le NetworkError have "?next = (r, tr')"
          by (subst (asm) mutation_loop.simps) simp
        from "1.IH"(1) [OF le refl NetworkError False this] show ?thesis by (rule go)
      qed
    next
      case (Response st b)
      show ?thesis
      proof (cases "(if 400 \<le> st \<and> st < 500 then raise_for_status st else None)")
        case (Some e)
        with "1.prems" le Response show ?thesis
          by (intro stop) (subst (asm) mutation_loop.simps, simp)
      next
        case n1: None
        show ?thesis
        proof (cases "st \<ge> 500 \<or> st = 429")
          case False
          with "1.prems" le Response n1 show ?thesis
            by (intro stop)
              (subst (asm) mutation_loop.simps, auto simp: Let_def split: option.splits)
        next
          case retry: True
          show ?thesis
          proof (cases "(if attempt = mx then raise_for_status st else None)")
            case (Some e)
            with "1.prems" le Response n1 retry show ?thesis
              by (intro stop) (subst (asm) mutation_loop.simps, simp)
          next
            case n2: None
            with "1.prems" le Response n1 retry have "?next = (r, tr')"
              by (subst (asm) mutation_loop.simps) simp
            from "1.IH"(2) [OF le refl Response n1 retry n2 this] show ?thesis by (rule go)
          qed
        qed
      qed
    qed
  qed
qed

lemma patch_device_location_events:
  assumes "patch_device_location net dev lid dry_run tr = (r, tr1)"
  shows "\<exists>evs. tr1 = tr @ evs \<and> set evs \<subseteq> insert (Request (PATCH_atlas dev lid)) (range Sleep)"
proof (cases dry_run)
  case True
  with assms show ?thesis by (simp add: patch_device_location_def)
next
  case False
  with assms show ?thesis
    by (simp add: patch_device_location_def mutation_loop_events)
qed

section \<open>The device driver\<close>

lemma process_devices_append:
  "process_devices str_lower net dry_run name_to_id existing_tags (xs @ ys) st =
     process_devices str_lower net dry_run name_to_id existing_tags ys
       (process_devices str_lower net dry_run name_to_id existing_tags xs st)"
  by (induction xs arbitrary: st) simp_all

text \<open>
  C7. A record whose label, in lower case, is not in the set of existing tags adds one to
  the failure counter and nothing to the trace (no request of any kind is sent for it),
  and the loop goes on with the records after it.
\<close>

theorem unknown_label_one_failure_no_call:
  assumes "d_tag entry \<noteq> []" and "str_lower (d_tag entry) \<notin> existing_tags"
  shows "process_entry str_lower net dry_run name_to_id existing_tags entry (failures, tr)
           = (failures + 1, tr)
       \<and> process_devices str_lower net dry_run name_to_id existing_tags (before @ entry # rest) st =
           process_devices str_lower net dry_run name_to_id existing_tags rest
             (fst (process_devices str_lower net dry_run name_to_id existing_tags before st) + 1,
              snd (process_devices str_lower net dry_run name_to_id existing_tags before st))"
proof -
  have one: "process_entry str_lower net dry_run name_to_id existing_tags entry (f, t) = (f + 1, t)"
    for f t
    using assms by (simp add: process_entry_def)
  show ?thesis
    by (simp add: one process_devices_append
        one [of "fst (process_devices str_lower net dry_run name_to_id existing_tags before st)"
                "snd (process_devices str_lower net dry_run name_to_id existing_tags before st)",
             simplified])
qed

theorem unknown_label_one_failure_no_call_witness:
  "d_tag \<lparr>d_device = ''sw1'', d_location = ''HQ'', d_tag = ''Edge''\<rparr> \<noteq> []
   \<and> ascii_lower (d_tag \<lparr>d_device = ''sw1'', d_location = ''HQ'', d_tag = ''Edge''\<rparr>) \<notin> {''core''}
   \<and> process_entry ascii_lower (lab_net 200) False [(''hq'', ''7''), (''branch'', ''9'')] {''core''}
        \<lparr>d_device = ''sw1'', d_location = ''HQ'', d_tag = ''Edge''\<rparr> (0, []) = (1, [])
   \<and> process_devices ascii_lower (lab_net 200) False [(''hq'', ''7''), (''branch'', ''9'')] {''core''}
        ([] @ \<lparr>d_device = ''sw1'', d_location = ''HQ'', d_tag = ''Edge''\<rparr>
            # [\<lparr>d_device = ''sw2'', d_location = ''Branch'', d_tag = []\<rparr>]) (0, [])
       = (1, [Request (PATCH_atlas ''sw2'' ''9'')])"
proof -
  have h: "d_tag \<lparr>d_device = ''sw1'', d_location = ''HQ'', d_tag = ''Edge''\<rparr> \<noteq> []"
    "ascii_lower (d_tag \<lparr>d_device = ''sw1'', d_location = ''HQ'', d_tag = ''Edge''\<rparr>) \<notin> {''core''}"
    by (simp_all add: text_eval)
  have rest: "process_devices ascii_lower (lab_net 200) False [(''hq'', ''7''), (''branch'', ''9'')] {''core''}
        [\<lparr>d_device = ''sw2'', d_location = ''Branch'', d_tag = []\<rparr>] (1, [])
       = (1, [Request (PATCH_atlas ''sw2'' ''9'')])"
    by (simp add: process_entry_def apply_mutations_def patch_device_location_def
        PATCH_MAX_RETRIES_def mutation_loop.simps lab_net_def raise_for_status_def text_eval)
  show ?thesis
    using h rest
      unknown_label_one_failure_no_call [where str_lower = ascii_lower, OF h,
        of "lab_net 200" False "[(''hq'', ''7''), (''branch'', ''9'')]" 0 "[]" "[]"
           "[\<lparr>d_device = ''sw2'', d_location = ''Branch'', d_tag = []\<rparr>]" "(0, [])"]
    by simp
qed

text \<open>
  C9. When the label check has passed, the location is resolved and the call that sets
  the location fails, the record adds one to the failure counter, the events of the
  record are those of that call alone (no request to the device-tags endpoint among
  them), and the loop goes on with the records after it.
\<close>

theorem failed_primary_call_skips_secondary:
  assumes lab: "d_tag entry = [] \<or> str_lower (d_tag entry) \<in> existing_tags"
    and res: "map_of name_to_id (str_lower (d_location entry)) = Some location_id"
             "location_id \<noteq> []"
    and bef: "process_devices str_lower net dry_run name_to_id existing_tags before st = (failures, tr)"
    and fail: "patch_device_location net (d_device entry) location_id dry_run tr = (Inl e, tr1)"
  shows "process_entry str_lower net dry_run name_to_id existing_tags entry (failures, tr)
           = (failures + 1, tr1)
       \<and> (\<exists>evs. tr1 = tr @ evs \<and> (\<forall>dev tg. Request (POST_device_tags dev tg) \<notin> set evs))
       \<and> process_devices str_lower net dry_run name_to_id existing_tags (before @ entry # rest) st =
           process_devices str_lower net dry_run name_to_id existing_tags rest (failures + 1, tr1)"
proof -
  have one: "process_entry str_lower net dry_run name_to_id existing_tags entry (failures, tr)
               = (failures + 1, tr1)"
    using lab res fail by (auto simp add: process_entry_def apply_mutations_def)
  from patch_device_location_events [OF fail]
  obtain evs where evs: "tr1 = tr @ evs"
      "set evs \<subseteq> insert (Request (PATCH_atlas (d_device entry) location_id)) (range Sleep)"
    by blast
  then have "\<forall>dev tg. Request (POST_device_tags dev tg) \<notin> set evs" by auto
  with evs(1)
  have two: "\<exists>evs. tr1 = tr @ evs \<and> (\<forall>dev tg. Request (POST_device_tags dev tg) \<notin> set evs)"
    by blast
  have three:
    "process_devices str_lower net dry_run name_to_id existing_tags (before @ entry # rest) st =
       process_devices str_lower net dry_run name_to_id existing_tags rest (failures + 1, tr1)"
    by (simp add: process_devices_append bef one)
  from one two three show ?thesis by blast
qed

theorem failed_primary_call_skips_secondary_witness:
  "process_entry ascii_lower (lab_net 404) False [(''hq'', ''7''), (''branch'', ''9'')] {''core''}
        \<lparr>d_device = ''sw1'', d_location = ''HQ'', d_tag = ''Core''\<rparr> (0, [])
      = (1, [Request (PATCH_atlas ''sw1'' ''7'')])
   \<and> process_devices ascii_lower (lab_net 404) False [(''hq'', ''7''), (''branch'', ''9'')] {''core''}
        ([] @ \<lparr>d_device = ''sw1'', d_location = ''HQ'', d_tag = ''Core''\<rparr>
            # [\<lparr>d_device = ''sw2'', d_location = ''Branch'', d_tag = []\<rparr>]) (0, [])
      = (2, [Request (PATCH_atlas ''sw1'' ''7''), Request (PATCH_atlas ''sw2'' ''9'')])"
proof -
  let ?e = "\<lparr>d_device = ''sw1'', d_location = ''HQ'', d_tag = ''Core''\<rparr>"
  let ?nm = "[(''hq'', ''7''), (''branch'', ''9'')]"
  have lab: "d_tag ?e = [] \<or> ascii_lower (d_tag ?e) \<in> {''core''}"
    by (simp add: text_eval)
  have res: "map_of ?nm (ascii_lower (d_location ?e)) = Some ''7''" "''7'' \<noteq> []"
    by (simp_all add: text_eval)
  have bef: "process_devices ascii_lower (lab_net 404) False ?nm {''core''} [] (0, []) = (0, [])"
    by simp
  have fail: "patch_device_location (lab_net 404) (d_device ?e) ''7'' False []
                = (Inl (HTTPError 404), [Request (PATCH_atlas ''sw1'' ''7'')])"
    by (simp add: patch_device_location_def PATCH_MAX_RETRIES_def
        mutation_loop_client_error lab_net_def)
  have rest: "process_devices ascii_lower (lab_net 404) False ?nm {''core''}
        [\<lparr>d_device = ''sw2'', d_location = ''Branch'', d_tag = []\<rparr>]
        (1, [Request (PATCH_atlas ''sw1'' ''7'')])
       = (2, [Request (PATCH_atlas ''sw1'' ''7''), Request (PATCH_atlas ''sw2'' ''9'')])"
    by (simp add: process_entry_def apply_mutations_def patch_device_location_def
        PATCH_MAX_RETRIES_def mutation_loop_client_error lab_net_def text_eval)
  show ?thesis
    using rest
      failed_primary_call_skips_secondary [where str_lower = ascii_lower, OF lab res bef fail,
        of "[\<lparr>d_device = ''sw2'', d_location = ''Branch'', d_tag = []\<rparr>]"]
    by simp
qed

section \<open>Malformed labels in the device file\<close>

lemma load_device_rows_errors_subset:
  "set errors \<subseteq> set (snd (load_device_rows str_strip h idx rows devices errors))"
  by (induction str_strip h idx rows devices errors rule: load_device_rows.induct)
     (auto simp add: Let_def)

lemma load_device_rows_error_of_row:
  assumes "\<exists>c \<in> set (str_strip (row_get row ''tag'')). \<not> tag_char c"
  shows "(if str_strip (row_get row ''device'') = [] \<or> str_strip (row_get row ''location'') = []
          then MissingDeviceLocation (length before + idx)
          else InvalidTag (length before + idx) (str_strip (row_get row ''tag'')))
         \<in> set (snd (load_device_rows str_strip True idx (before @ row # rest) devices errors))"
proof (induction before arbitrary: idx devices errors)
  case Nil
  from assms have bad: "str_strip (row_get row ''tag'') \<noteq> []"
    "\<not> TAG_PATTERN_fullmatch (str_strip (row_get row ''tag''))"
    by (auto simp add: TAG_PATTERN_fullmatch_def list_all_iff)
  show ?case
  proof (cases "str_strip (row_get row ''device'') = []
                \<or> str_strip (row_get row ''location'') = []")
    case True
    then show ?thesis
      using load_device_rows_errors_subset
        [where errors = "errors @ [MissingDeviceLocation idx]" and str_strip = str_strip
           and h = True and idx = "idx + 1" and rows = rest and devices = devices]
      by (auto simp add: Let_def)
  next
    case False
    then show ?thesis
      using bad load_device_rows_errors_subset
        [where errors = "errors @ [InvalidTag idx (str_strip (row_get row ''tag''))]"
           and str_strip = str_strip and h = True and idx = "idx + 1" and rows = rest
           and devices = devices]
      by (auto simp add: Let_def)
  qed
next
  case (Cons r before)
  have next_idx: "length (r # before) + idx = length before + (idx + 1)" by simp
  show ?case
    unfolding next_idx
    using Cons.IH [of "idx + 1"]
    by (auto simp add: Let_def)
qed

text \<open>
  C4, as stated, fails: a label with a character outside the pattern is found while the
  file is loaded, the loader raises one \<open>ValueError\<close> for all the rows in error, and
  \<open>main\<close> exits with status 1 before any request is sent. In the file below the second
  row is sound, and nothing is done for it.
\<close>

theorem invalid_label_aborts_run_counterexample:
  "load_devices_from_csv ascii_strip (devices_csv ''bad tag!'')
     = Inl (ValidationErrors [InvalidTag 2 ''bad tag!''])
   \<and> device_main ascii_strip ascii_lower (lab_net 200) False (devices_csv ''bad tag!'') []
     = (1, [])"
  by (simp add: device_main_def device_setup_def load_devices_invalid_label_example)

text \<open>
  C4, amended. Take a file with a \<open>tag\<close> column in which the row after the rows
  \<open>before\<close> holds, after stripping, a label with a character outside letters, digits,
  underscore and hyphen. If the file has its two required columns, loading it fails with
  one \<open>ValidationErrors\<close> error whose list holds the error of that row under its line
  number: the invalid label, or the missing device or location when the row lacks one
  (that check comes first). If a required column is absent, loading fails with
  \<open>MissingColumns\<close>. In both cases the run exits with status 1 and the trace stays as
  it is: no request is sent and no record is processed.
\<close>

theorem invalid_label_aborts_run:
  assumes "''tag'' \<in> set (fieldnames f)" and "csv_rows f = before @ row # rest"
    and "\<exists>c \<in> set (str_strip (row_get row ''tag'')). \<not> tag_char c"
  shows "(''device'' \<in> set (fieldnames f) \<and> ''location'' \<in> set (fieldnames f) \<longrightarrow>
            (\<exists>errors.
               load_devices_from_csv str_strip (Some f) = Inl (ValidationErrors errors)
             \<and> (if str_strip (row_get row ''device'') = []
                    \<or> str_strip (row_get row ''location'') = []
                 then MissingDeviceLocation (length before + 2)
                 else InvalidTag (length before + 2) (str_strip (row_get row ''tag'')))
                \<in> set errors))
       \<and> (''device'' \<notin> set (fieldnames f) \<or> ''location'' \<notin> set (fieldnames f) \<longrightarrow>
            load_devices_from_csv str_strip (Some f)
              = Inl (MissingColumns
                       (filter (\<lambda>c. c \<notin> set (fieldnames f)) [''device'', ''location''])))
       \<and> device_main str_strip str_lower net dry_run (Some f) tr = (1, tr)"
proof -
  let ?err = "(if str_strip (row_get row ''device'') = []
                    \<or> str_strip (row_get row ''location'') = []
                 then MissingDeviceLocation (length before + 2)
                 else InvalidTag (length before + 2) (str_strip (row_get row ''tag'')))"
  let ?loaded = "load_device_rows str_strip True 2 (csv_rows f) [] []"
  have "(if str_strip (row_get row ''device'') = [] \<or> str_strip (row_get row ''location'') = []
          then MissingDeviceLocation (length before + 2)
          else InvalidTag (length before + 2) (str_strip (row_get row ''tag'')))
         \<in> set (snd (load_device_rows str_strip True 2 (before @ row # rest) [] []))"
    by (rule load_device_rows_error_of_row [where str_strip = str_strip and row = row])
       (rule assms(3))
  then have member: "?err \<in> set (snd ?loaded)"
    unfolding assms(2) .
  then have nonempty: "snd ?loaded \<noteq> []" by auto
  have complete: "load_devices_from_csv str_strip (Some f) = Inl (ValidationErrors (snd ?loaded))"
    if "''device'' \<in> set (fieldnames f)" "''location'' \<in> set (fieldnames f)"
    using that assms(1) nonempty
    by (auto simp add: load_devices_from_csv_def Let_def split: prod.splits)
  have missing: "load_devices_from_csv str_strip (Some f)
              = Inl (MissingColumns
                       (filter (\<lambda>c. c \<notin> set (fieldnames f)) [''device'', ''location'']))"
    if "''device'' \<notin> set (fieldnames f) \<or> ''location'' \<notin> set (fieldnames f)"
    using that by (auto simp add: load_devices_from_csv_def Let_def)
  have "\<exists>e. load_devices_from_csv str_strip (Some f) = Inl e"
    using complete missing by blast
  then have exit: "device_main str_strip str_lower net dry_run (Some f) tr = (1, tr)"
    by (auto simp add: device_main_def device_setup_def)
  from complete member missing exit show ?thesis by blast
qed

theorem invalid_label_aborts_run_witness:
  "(\<exists>c \<in> set (ascii_strip (row_get (map_of [(''device'', ''sw1''), (''location'', ''HQ''),
                                            (''tag'', ''a b'')]) ''tag'')). \<not> tag_char c)
   \<and> (\<exists>errors.
         load_devices_from_csv ascii_strip
           (Some \<lparr>fieldnames = [''device'', ''location'', ''tag''],
                  csv_rows = [map_of [(''device'', ''sw2''), (''location'', ''Branch'')],
                              map_of [(''device'', ''sw1''), (''location'', ''HQ''),
                                      (''tag'', ''a b'')]]\<rparr>)
           = Inl (ValidationErrors errors)
       \<and> InvalidTag 3 ''a b'' \<in> set errors)
   \<and> device_main ascii_strip ascii_lower (lab_net 200) True
        (Some \<lparr>fieldnames = [''device'', ''location'', ''tag''],
               csv_rows = [map_of [(''device'', ''sw2''), (''location'', ''Branch'')],
                           map_of [(''device'', ''sw1''), (''location'', ''HQ''),
                                   (''tag'', ''a b'')]]\<rparr>) [] = (1, [])
   \<and> load_devices_from_csv ascii_strip
        (Some \<lparr>fieldnames = [''location'', ''tag''],
               csv_rows = [map_of [(''location'', ''HQ''), (''tag'', ''a b'')]]\<rparr>)
        = Inl (MissingColumns [''device''])"
proof -
  let ?other = "map_of [(''device'', ''sw2''), (''location'', ''Branch'')]"
  let ?row = "map_of [(''device'', ''sw1''), (''location'', ''HQ''), (''tag'', ''a b'')]"
  let ?f = "\<lparr>fieldnames = [''device'', ''location'', ''tag''], csv_rows = [?other, ?row]\<rparr>"
  let ?row2 = "map_of [(''location'', ''HQ''), (''tag'', ''a b'')]"
  let ?g = "\<lparr>fieldnames = [''location'', ''tag''], csv_rows = [?row2]\<rparr>"
  have h1: "''tag'' \<in> set (fieldnames ?f)" by simp
  have h2: "csv_rows ?f = [?other] @ ?row # []" by simp
  have h3: "\<exists>c \<in> set (ascii_strip (row_get ?row ''tag'')). \<not> tag_char c"
    by (simp add: text_eval)
  have g1: "''tag'' \<in> set (fieldnames ?g)" by simp
  have g2: "csv_rows ?g = [] @ ?row2 # []" by simp
  have g3: "\<exists>c \<in> set (ascii_strip (row_get ?row2 ''tag'')). \<not> tag_char c"
    by (simp add: text_eval)
  have cells: "ascii_strip (row_get ?row ''device'') = ''sw1''"
    "ascii_strip (row_get ?row ''location'') = ''HQ''"
    "ascii_strip (row_get ?row ''tag'') = ''a b''"
    by (simp_all add: text_eval)
  show ?thesis
    using h3
      invalid_label_aborts_run [where str_strip = ascii_strip and str_lower = ascii_lower,
        OF h1 h2 h3, of "lab_net 200" True "[]"]
      invalid_label_aborts_run [where str_strip = ascii_strip and str_lower = ascii_lower,
        OF g1 g2 g3, of "lab_net 200" True "[]"]
    by (simp add: cells numeral_3_eq_3 del: map_of.simps)
qed

section \<open>Geocoding\<close>

lemma geocode_loop_retry:
  assumes "geocode_attempt tf (net tr (GET_nominatim a)) = Inl e" and "attempt < 3"
    and "nxt = attempt + 1" and "delay' = delay * 2"
  shows "geocode_address_loop net tf a attempt delay tr =
           geocode_address_loop net tf a nxt delay'
             (tr @ [Request (GET_nominatim a), Sleep delay])"
  using assms
  by (simp add: geocode_address_loop.simps [of net tf a attempt delay tr]
      GEOCODE_MAX_RETRIES_def GEOCODE_RETRY_BACKOFF_def)

lemma geocode_loop_last:
  assumes "geocode_attempt tf (net tr (GET_nominatim a)) = Inl e"
  shows "geocode_address_loop net tf a 3 delay tr = (Inl e, tr @ [Request (GET_nominatim a)])"
  using assms
  by (simp add: geocode_address_loop.simps [of net tf a 3 delay tr] GEOCODE_MAX_RETRIES_def)

lemma geocode_loop_success:
  assumes "geocode_attempt tf (net tr (GET_nominatim a)) = Inr c" and "attempt \<le> 3"
  shows "geocode_address_loop net tf a attempt delay tr =
           (Inr c, tr @ [Request (GET_nominatim a)])"
  using assms
  by (simp add: geocode_address_loop.simps [of net tf a attempt delay tr]
      GEOCODE_MAX_RETRIES_def)

lemma geocode_three_failures:
  assumes f1: "geocode_attempt tf (net tr (GET_nominatim a)) = Inl e1"
    and f2: "geocode_attempt tf
               (net (tr @ [Request (GET_nominatim a), Sleep 1]) (GET_nominatim a)) = Inl e2"
    and f3: "geocode_attempt tf
               (net (tr @ [Request (GET_nominatim a), Sleep 1,
                           Request (GET_nominatim a), Sleep 2]) (GET_nominatim a)) = Inl e3"
  shows "geocode_address net tf a tr =
           (Inl e3, tr @ [Request (GET_nominatim a), Sleep 1, Request (GET_nominatim a),
                          Sleep 2, Request (GET_nominatim a)])"
proof -
  let ?g = "Request (GET_nominatim a)"
  have "geocode_address net tf a tr = geocode_address_loop net tf a 1 1 tr"
    by (simp add: geocode_address_def GEOCODE_DELAY_SECONDS_def)
  also have "\<dots> = geocode_address_loop net tf a 2 2 (tr @ [?g, Sleep 1])"
    by (rule geocode_loop_retry [where e = e1]) (use f1 in simp_all)
  also have "\<dots> = geocode_address_loop net tf a 3 4 ((tr @ [?g, Sleep 1]) @ [?g, Sleep 2])"
    by (rule geocode_loop_retry [where e = e2]) (use f2 in simp_all)
  also have "\<dots> = (Inl e3, (tr @ [?g, Sleep 1, ?g, Sleep 2]) @ [?g])"
    using geocode_loop_last [where tf = tf and net = net and a = a and e = e3
        and tr = "tr @ [?g, Sleep 1, ?g, Sleep 2]" and delay = 4] f3
    by simp
  finally show ?thesis by simp
qed

text \<open>
  C5, as stated, fails: \<open>geocode_address\<close> catches every exception of an attempt and
  retries it. A 404 answer and an empty list of candidates are each tried three times,
  with waits of 1 and 2 in between, before the failure reaches the caller.
\<close>

theorem geocoding_retries_client_error_counterexample:
  "geocode_address (net_always (Response 404 NotJson)) table_float ''1 Main St'' []
     = (Inl (HTTPError 404),
        [Request (GET_nominatim ''1 Main St''), Sleep 1, Request (GET_nominatim ''1 Main St''),
         Sleep 2, Request (GET_nominatim ''1 Main St'')])
   \<and> geocode_address (net_always (Response 200 (JsonList []))) table_float ''1 Main St'' []
     = (Inl NoGeocodingResult,
        [Request (GET_nominatim ''1 Main St''), Sleep 1, Request (GET_nominatim ''1 Main St''),
         Sleep 2, Request (GET_nominatim ''1 Main St'')])"
  by (simp add: geocode_three_failures [where ?e1.0 = "HTTPError 404" and ?e2.0 = "HTTPError 404"]
      geocode_three_failures [where ?e1.0 = "NoGeocodingResult" and ?e2.0 = "NoGeocodingResult"]
      net_always_def geocode_attempt_def raise_for_status_def)

lemma geocode_address_by_attempts:
  "geocode_address net tf a tr =
     (case geocode_attempt tf (net tr (GET_nominatim a)) of
        Inr c \<Rightarrow> (Inr c, tr @ [Request (GET_nominatim a)])
      | Inl e1 \<Rightarrow>
          (case geocode_attempt tf
                  (net (tr @ [Request (GET_nominatim a), Sleep 1]) (GET_nominatim a)) of
             Inr c \<Rightarrow>
               (Inr c, tr @ [Request (GET_nominatim a), Sleep 1, Request (GET_nominatim a)])
           | Inl e2 \<Rightarrow>
               (case geocode_attempt tf
                       (net (tr @ [Request (GET_nominatim a), Sleep 1,
                                   Request (GET_nominatim a), Sleep 2]) (GET_nominatim a)) of
                  Inr c \<Rightarrow>
                    (Inr c, tr @ [Request (GET_nominatim a), Sleep 1,
                                  Request (GET_nominatim a), Sleep 2,
                                  Request (GET_nominatim a)])
                | Inl e3 \<Rightarrow>
                    (Inl e3, tr @ [Request (GET_nominatim a), Sleep 1,
                                   Request (GET_nominatim a), Sleep 2,
                                   Request (GET_nominatim a)]))))"
proof -
  let ?g = "Request (GET_nominatim a)"
  let ?r1 = "geocode_attempt tf (net tr (GET_nominatim a))"
  let ?r2 = "geocode_attempt tf (net (tr @ [?g, Sleep 1]) (GET_nominatim a))"
  let ?r3 = "geocode_attempt tf (net (tr @ [?g, Sleep 1, ?g, Sleep 2]) (GET_nominatim a))"
  have start: "geocode_address net tf a tr = geocode_address_loop net tf a 1 1 tr"
    by (simp add: geocode_address_def GEOCODE_DELAY_SECONDS_def)
  show ?thesis
  proof (cases ?r1)
    case (Inr c)
    then have "geocode_address_loop net tf a 1 1 tr = (Inr c, tr @ [?g])"
      by (intro geocode_loop_success) simp_all
    then have res: "geocode_address net tf a tr = (Inr c, tr @ [?g])"
      unfolding start .
    show ?thesis unfolding res using Inr by simp
  next
    case f1: (Inl e1)
    have step1: "geocode_address_loop net tf a 1 1 tr =
        geocode_address_loop net tf a 2 2 (tr @ [?g, Sleep 1])"
      by (rule geocode_loop_retry [where e = e1]) (use f1 in simp_all)
    show ?thesis
    proof (cases ?r2)
      case (Inr c)
      then have "geocode_address_loop net tf a 2 2 (tr @ [?g, Sleep 1]) =
          (Inr c, (tr @ [?g, Sleep 1]) @ [?g])"
        by (intro geocode_loop_success) simp_all
      then have res: "geocode_address net tf a tr = (Inr c, tr @ [?g, Sleep 1, ?g])"
        unfolding start step1 by simp
      show ?thesis unfolding res using f1 Inr by simp
    next
      case f2: (Inl e2)
      have step2: "geocode_address_loop net tf a 2 2 (tr @ [?g, Sleep 1]) =
          geocode_address_loop net tf a 3 4 ((tr @ [?g, Sleep 1]) @ [?g, Sleep 2])"
        by (rule geocode_loop_retry [where e = e2]) (use f2 in simp_all)
      show ?thesis
      proof (cases ?r3)
        case (Inr c)
        then have "geocode_address_loop net tf a 3 4 (tr @ [?g, Sleep 1, ?g, Sleep 2]) =
            (Inr c, (tr @ [?g, Sleep 1, ?g, Sleep 2]) @ [?g])"
          by (intro geocode_loop_success) simp_all
        then have res: "geocode_address net tf a tr =
            (Inr c, tr @ [?g, Sleep 1, ?g, Sleep 2, ?g])"
          unfolding start step1 step2 by simp
        show ?thesis unfolding res using f1 f2 Inr by simp
      next
        case f3: (Inl e3)
        then have "geocode_address_loop net tf a 3 4 (tr @ [?g, Sleep 1, ?g, Sleep 2]) =
            (Inl e3, (tr @ [?g, Sleep 1, ?g, Sleep 2]) @ [?g])"
          by (intro geocode_loop_last) simp_all
        then have res: "geocode_address net tf a tr =
            (Inl e3, tr @ [?g, Sleep 1, ?g, Sleep 2, ?g])"
          unfolding start step1 step2 by simp
        show ?thesis unfolding res using f1 f2 f3 by simp
      qed
    qed
  qed
qed

text \<open>
  C5, amended. An attempt of a geocoding call fails on an answer with a status from 400
  to 599 (client errors included), on a network error, on a body that is not JSON, on an
  empty list of candidates or another empty body, and on a first candidate that lacks
  \<open>lat\<close> or \<open>lon\<close> or holds a value \<open>float\<close> rejects. The call is decided by its
  attempts alone: a successful attempt ends it at once with the coordinates; a failed
  first attempt is followed by a wait of 1 and a second attempt, a failed second attempt
  by a wait of 2 and a third, whatever the failure was; the third attempt is the last,
  no wait follows it, and its failure is the failure of the call. So a call sends at most
  three requests, and no failure is fatal before the third attempt.
\<close>

theorem geocoding_retries_every_failure:
  "geocode_address net tf a tr =
     (case geocode_attempt tf (net tr (GET_nominatim a)) of
        Inr c \<Rightarrow> (Inr c, tr @ [Request (GET_nominatim a)])
      | Inl e1 \<Rightarrow>
          (case geocode_attempt tf
                  (net (tr @ [Request (GET_nominatim a), Sleep 1]) (GET_nominatim a)) of
             Inr c \<Rightarrow>
               (Inr c, tr @ [Request (GET_nominatim a), Sleep 1, Request (GET_nominatim a)])
           | Inl e2 \<Rightarrow>
               (case geocode_attempt tf
                       (net (tr @ [Request (GET_nominatim a), Sleep 1,
                                   Request (GET_nominatim a), Sleep 2]) (GET_nominatim a)) of
                  Inr c \<Rightarrow>
                    (Inr c, tr @ [Request (GET_nominatim a), Sleep 1,
                                  Request (GET_nominatim a), Sleep 2,
                                  Request (GET_nominatim a)])
                | Inl e3 \<Rightarrow>
                    (Inl e3, tr @ [Request (GET_nominatim a), Sleep 1,
                                   Request (GET_nominatim a), Sleep 2,
                                   Request (GET_nominatim a)]))))
   \<and> geocode_attempt tf NetworkError = Inl RequestException
   \<and> (400 \<le> st \<and> st < 600 \<longrightarrow> geocode_attempt tf (Response st b) = Inl (HTTPError st))
   \<and> (\<not> (400 \<le> st \<and> st < 600) \<longrightarrow>
         geocode_attempt tf (Response st NotJson) = Inl JSONDecodeError
       \<and> geocode_attempt tf (Response st (JsonList [])) = Inl NoGeocodingResult
       \<and> geocode_attempt tf (Response st EmptyJson) = Inl NoGeocodingResult
       \<and> (first ''lat'' = None \<or> first ''lon'' = None \<longrightarrow>
            geocode_attempt tf (Response st (JsonList (first # others))) = Inl KeyError
            \<or> geocode_attempt tf (Response st (JsonList (first # others)))
                = Inl FloatValueError)
       \<and> (first ''lat'' = Some lat_value \<and> py_float tf lat_value = None \<longrightarrow>
            geocode_attempt tf (Response st (JsonList (first # others)))
              = Inl FloatValueError)
       \<and> (first ''lat'' = Some lat_value \<and> py_float tf lat_value = Some lat
            \<and> first ''lon'' = Some lon_value \<and> py_float tf lon_value = None \<longrightarrow>
            geocode_attempt tf (Response st (JsonList (first # others)))
              = Inl FloatValueError)
       \<and> (first ''lat'' = Some lat_value \<and> py_float tf lat_value = Some lat
            \<and> first ''lon'' = Some lon_value \<and> py_float tf lon_value = Some lng \<longrightarrow>
            geocode_attempt tf (Response st (JsonList (first # others))) = Inr (lat, lng)))"
proof -
  have classes:
    "geocode_attempt tf NetworkError = Inl RequestException
   \<and> (400 \<le> st \<and> st < 600 \<longrightarrow> geocode_attempt tf (Response st b) = Inl (HTTPError st))
   \<and> (\<not> (400 \<le> st \<and> st < 600) \<longrightarrow>
         geocode_attempt tf (Response st NotJson) = Inl JSONDecodeError
       \<and> geocode_attempt tf (Response st (JsonList [])) = Inl NoGeocodingResult
       \<and> geocode_attempt tf (Response st EmptyJson) = Inl NoGeocodingResult
       \<and> (first ''lat'' = None \<or> first ''lon'' = None \<longrightarrow>
            geocode_attempt tf (Response st (JsonList (first # others))) = Inl KeyError
            \<or> geocode_attempt tf (Response st (JsonList (first # others)))
                = Inl FloatValueError)
       \<and> (first ''lat'' = Some lat_value \<and> py_float tf lat_value = None \<longrightarrow>
            geocode_attempt tf (Response st (JsonList (first # others)))
              = Inl FloatValueError)
       \<and> (first ''lat'' = Some lat_value \<and> py_float tf lat_value = Some lat
            \<and> first ''lon'' = Some lon_value \<and> py_float tf lon_value = None \<longrightarrow>
            geocode_attempt tf (Response st (JsonList (first # others)))
              = Inl FloatValueError)
       \<and> (first ''lat'' = Some lat_value \<and> py_float tf lat_value = Some lat
            \<and> first ''lon'' = Some lon_value \<and> py_float tf lon_value = Some lng \<longrightarrow>
            geocode_attempt tf (Response st (JsonList (first # others))) = Inr (lat, lng)))"
    by (auto simp add: geocode_attempt_def raise_for_status_def split: option.splits)
  show ?thesis
    by (rule conjI [OF geocode_address_by_attempts classes])
qed

theorem geocoding_retries_every_failure_witness:
  "geocode_address second_try_net table_float ''1 Main St'' []
     = (Inr (51, 4),
        [Request (GET_nominatim ''1 Main St''), Sleep 1, Request (GET_nominatim ''1 Main St'')])
   \<and> geocode_attempt table_float (Response 404 NotJson) = Inl (HTTPError 404)
   \<and> geocode_attempt table_float (Response 200 NotJson) = Inl JSONDecodeError
   \<and> geocode_attempt table_float (Response 200 (JsonList [])) = Inl NoGeocodingResult
   \<and> geocode_attempt table_float
        (Response 200 (JsonList [map_of [(''lat'', JStr ''north''), (''lon'', JStr ''4'')]]))
       = Inl FloatValueError
   \<and> geocode_attempt table_float
        (Response 200 (JsonList [map_of [(''lat'', JStr ''51''), (''lon'', JStr ''4'')]]))
       = Inr (51, 4)"
proof -
  let ?bad = "map_of [(''lat'', JStr ''north''), (''lon'', JStr ''4'')]"
  let ?good = "map_of [(''lat'', JStr ''51''), (''lon'', JStr ''4'')]"
  note t404 = geocoding_retries_every_failure
    [where net = second_try_net and tf = table_float and a = "''1 Main St''" and tr = "[]"
       and st = 404 and b = NotJson]
  note tbad = geocoding_retries_every_failure
    [where net = second_try_net and tf = table_float and a = "''1 Main St''" and tr = "[]"
       and st = 200 and first = ?bad and others = "[]" and lat_value = "JStr ''north''"]
  note tgood = geocoding_retries_every_failure
    [where net = second_try_net and tf = table_float and a = "''1 Main St''" and tr = "[]"
       and st = 200 and first = ?good and others = "[]" and lat_value = "JStr ''51''"
       and lat = 51 and lon_value = "JStr ''4''" and lng = 4]
  have good: "geocode_attempt table_float (Response 200 (JsonList [?good])) = Inr (51, 4)"
    using tgood by (simp add: table_float_def py_float_def)
  have bad: "geocode_attempt table_float (Response 200 (JsonList [?bad])) = Inl FloatValueError"
    using tbad by (simp add: table_float_def py_float_def)
  have others: "geocode_attempt table_float (Response 200 NotJson) = Inl JSONDecodeError"
    "geocode_attempt table_float (Response 200 (JsonList [])) = Inl NoGeocodingResult"
    using tbad by simp_all
  have client: "geocode_attempt table_float (Response 404 NotJson) = Inl (HTTPError 404)"
    using t404 by simp
  have call: "geocode_address second_try_net table_float ''1 Main St'' []
     = (Inr (51, 4),
        [Request (GET_nominatim ''1 Main St''), Sleep 1, Request (GET_nominatim ''1 Main St'')])"
    using t404 [THEN conjunct1] client good
    by (simp add: second_try_net_def)
  from call client others bad good show ?thesis by blast
qed

lemma geocode_loop_extends:
  "\<exists>evs. snd (geocode_address_loop net tf a attempt delay tr) = tr @ evs"
proof (induction net tf a attempt delay tr rule: geocode_address_loop.induct)
  case (1 net tf a attempt delay tr)
  show ?case
  proof (cases "attempt \<le> GEOCODE_MAX_RETRIES")
    case False
    then show ?thesis by (subst geocode_address_loop.simps) simp
  next
    case le: True
    show ?thesis
    proof (cases "geocode_attempt tf (net tr (GET_nominatim a))")
      case (Inr c)
      with le show ?thesis by (subst geocode_address_loop.simps) simp
    next
      case (Inl e)
      show ?thesis
      proof (cases "attempt = GEOCODE_MAX_RETRIES")
        case True
        with Inl show ?thesis by (subst geocode_address_loop.simps) simp
      next
        case False
        from "1.IH" [OF le refl Inl False]
        obtain evs where "snd (geocode_address_loop net tf a (attempt + 1)
            (delay * GEOCODE_RETRY_BACKOFF) ((tr @ [Request (GET_nominatim a)]) @ [Sleep delay]))
            = ((tr @ [Request (GET_nominatim a)]) @ [Sleep delay]) @ evs" by blast
        with le Inl False show ?thesis by (subst geocode_address_loop.simps) simp
      qed
    qed
  qed
qed

lemma geocode_address_starts_with_request:
  "\<exists>evs. snd (geocode_address net tf a tr) = tr @ Request (GET_nominatim a) # evs"
proof (cases "geocode_attempt tf (net tr (GET_nominatim a))")
  case (Inr c)
  then show ?thesis
    by (simp add: geocode_address_def geocode_loop_success)
next
  case (Inl e)
  obtain evs where "snd (geocode_address_loop net tf a 2 (GEOCODE_DELAY_SECONDS * 2)
       (tr @ [Request (GET_nominatim a), Sleep GEOCODE_DELAY_SECONDS]))
     = (tr @ [Request (GET_nominatim a), Sleep GEOCODE_DELAY_SECONDS]) @ evs"
    using geocode_loop_extends by blast
  moreover have "geocode_address net tf a tr =
       geocode_address_loop net tf a 2 (GEOCODE_DELAY_SECONDS * 2)
         (tr @ [Request (GET_nominatim a), Sleep GEOCODE_DELAY_SECONDS])"
    unfolding geocode_address_def
    by (rule geocode_loop_retry [where e = e]) (use Inl in simp_all)
  ultimately show ?thesis by simp
qed

lemma geocode_locations_loop_all_present:
  assumes "\<forall>loc \<in> set locations. loc_lat loc \<noteq> None \<and> loc_lng loc \<noteq> None"
  shows "geocode_locations_loop net tf locations (results, tr) =
     (results @ map (\<lambda>loc. \<lparr>res_id = loc_id loc, res_name = loc_name loc,
                 res_lat = the (loc_lat loc), res_lng = the (loc_lng loc)\<rparr>) locations, tr)"
  using assms
  by (induction locations arbitrary: results) (auto simp add: geocode_one_def)

lemma geocode_one_missing:
  assumes "loc_lat loc = None \<or> loc_lng loc = None"
  shows "\<exists>evs. snd (geocode_one net tf loc (results, tr)) =
          tr @ Request (GET_nominatim (loc_address loc)) # evs @ [Sleep GEOCODE_DELAY_SECONDS]"
proof -
  obtain evs where "snd (geocode_address net tf (loc_address loc) tr) =
      tr @ Request (GET_nominatim (loc_address loc)) # evs"
    using geocode_address_starts_with_request by blast
  with assms show ?thesis
    by (cases "geocode_address net tf (loc_address loc) tr")
       (auto simp add: geocode_one_def split: sum.splits)
qed

text \<open>
  C8. A record with both coordinates is added to the results with those coordinates and
  the trace stays as it is: no request, no wait. A record that lacks a coordinate sends a
  geocoding request for its address, and the wait of \<open>GEOCODE_DELAY_SECONDS\<close> ends its
  events. A list of records that all carry both coordinates leaves the trace unchanged.
\<close>

theorem presupplied_coordinates_skip_geocoding:
  "(loc_lat loc = Some lat \<and> loc_lng loc = Some lng \<longrightarrow>
       geocode_one net tf loc (results, tr) =
         (results @ [\<lparr>res_id = loc_id loc, res_name = loc_name loc,
                      res_lat = lat, res_lng = lng\<rparr>], tr))
   \<and> ((loc_lat loc = None \<or> loc_lng loc = None) \<longrightarrow>
       (\<exists>evs. snd (geocode_one net tf loc (results, tr)) =
          tr @ Request (GET_nominatim (loc_address loc)) # evs @ [Sleep GEOCODE_DELAY_SECONDS]))
   \<and> ((\<forall>l \<in> set locations. loc_lat l \<noteq> None \<and> loc_lng l \<noteq> None) \<longrightarrow>
       geocode_locations net tf locations tr =
         (map (\<lambda>l. \<lparr>res_id = loc_id l, res_name = loc_name l,
                    res_lat = the (loc_lat l), res_lng = the (loc_lng l)\<rparr>) locations, tr))"
  using geocode_one_missing [of loc net tf results tr]
    geocode_locations_loop_all_present [of locations net tf "[]" tr]
  by (auto simp add: geocode_one_def geocode_locations_def)

theorem presupplied_coordinates_skip_geocoding_witness:
  "geocode_one (lab_net 200) table_float
      \<lparr>loc_id = ''7'', loc_name = ''HQ'', loc_address = ''1 Main St'',
        loc_lat = Some 51, loc_lng = Some 4\<rparr> ([], [])
     = ([\<lparr>res_id = ''7'', res_name = ''HQ'', res_lat = 51, res_lng = 4\<rparr>], [])
   \<and> (\<exists>evs. snd (geocode_one (lab_net 200) table_float
      \<lparr>loc_id = ''7'', loc_name = ''HQ'', loc_address = ''1 Main St'',
        loc_lat = None, loc_lng = Some 4\<rparr> ([], []))
       = [] @ Request (GET_nominatim ''1 Main St'') # evs @ [Sleep GEOCODE_DELAY_SECONDS])
   \<and> geocode_locations (lab_net 200) table_float
      [\<lparr>loc_id = ''7'', loc_name = ''HQ'', loc_address = ''1 Main St'',
        loc_lat = Some 51, loc_lng = Some 4\<rparr>] []
     = ([\<lparr>res_id = ''7'', res_name = ''HQ'', res_lat = 51, res_lng = 4\<rparr>], [])"
  using presupplied_coordinates_skip_geocoding
     [of "\<lparr>loc_id = ''7'', loc_name = ''HQ'', loc_address = ''1 Main St'',
          loc_lat = Some 51, loc_lng = Some 4\<rparr>" 51 4 "lab_net 200" table_float "[]" "[]"
         "[\<lparr>loc_id = ''7'', loc_name = ''HQ'', loc_address = ''1 Main St'',
           loc_lat = Some 51, loc_lng = Some 4\<rparr>]"]
    presupplied_coordinates_skip_geocoding
     [of "\<lparr>loc_id = ''7'', loc_name = ''HQ'', loc_address = ''1 Main St'',
          loc_lat = None, loc_lng = Some 4\<rparr>" 0 0 "lab_net 200" table_float "[]" "[]" "[]"]
  by simp

section \<open>Coordinates that do not parse\<close>




declare load_location_rows.simps(2) [simp del]




lemma geocode_locations_loop_append:
  "geocode_locations_loop net tf (xs @ ys) st =
     geocode_locations_loop net tf ys (geocode_locations_loop net tf xs st)"
  by (induction xs arbitrary: st) simp_all

lemma geocode_address_extends:
  "\<exists>evs. snd (geocode_address net tf a tr) = tr @ evs"
  using geocode_address_starts_with_request [of net tf a tr] by auto



lemma mutation_loop_extends:
  "\<exists>evs. snd (mutation_loop net req mx bk attempt delay tr) = tr @ evs"
  using mutation_loop_events
    [of net req mx bk attempt delay tr
        "fst (mutation_loop net req mx bk attempt delay tr)"
        "snd (mutation_loop net req mx bk attempt delay tr)"]
  by auto






section \<open>The location lookup table\<close>

lemma build_append:
  "build_name_to_id str_strip str_lower (xs @ ys) acc = build_name_to_id str_strip str_lower ys (build_name_to_id str_strip str_lower xs acc)"
proof (induction xs arbitrary: acc)
  case Nil
  then show ?case by simp
next
  case (Cons x xs)
  then show ?case by (cases acc) (simp add: Let_def)
qed

lemma build_unusable:
  assumes "str_strip (obj_get loc ''id'') = [] \<or> str_strip (obj_get loc ''name'') = []"
  shows "build_name_to_id str_strip str_lower (loc # rest) (m, ws) = build_name_to_id str_strip str_lower rest (m, ws)"
  using assms by (auto simp add: Let_def)

lemma build_usable:
  assumes "str_strip (obj_get loc ''id'') \<noteq> []" and "str_strip (obj_get loc ''name'') \<noteq> []"
  shows "build_name_to_id str_strip str_lower (loc # rest) (m, ws) =
     build_name_to_id str_strip str_lower rest
       (AList.update (str_lower (str_strip (obj_get loc ''name''))) (str_strip (obj_get loc ''id'')) m,
        ws @ (case map_of m (str_lower (str_strip (obj_get loc ''name''))) of
                None \<Rightarrow> []
              | Some old \<Rightarrow>
                  if old \<noteq> str_strip (obj_get loc ''id'')
                  then [DuplicateLocationName (str_strip (obj_get loc ''name'')) old
                          (str_strip (obj_get loc ''id''))]
                  else []))"
  using assms by (auto simp add: Let_def split: option.splits)

declare build_name_to_id.simps(2) [simp del]

lemma build_other_keys:
  assumes "\<forall>loc \<in> set zs. str_strip (obj_get loc ''id'') \<noteq> [] \<and> str_strip (obj_get loc ''name'') \<noteq> []
             \<longrightarrow> str_lower (str_strip (obj_get loc ''name'')) \<noteq> k"
  shows "map_of (fst (build_name_to_id str_strip str_lower zs (m, ws))) k = map_of m k"
  using assms
proof (induction zs arbitrary: m ws)
  case Nil
  then show ?case by simp
next
  case (Cons loc zs)
  show ?case
  proof (cases "str_strip (obj_get loc ''id'') = [] \<or> str_strip (obj_get loc ''name'') = []")
    case True
    with Cons show ?thesis by (simp add: build_unusable)
  next
    case False
    then have u: "str_strip (obj_get loc ''id'') \<noteq> []" "str_strip (obj_get loc ''name'') \<noteq> []" by auto
    with Cons.prems have "str_lower (str_strip (obj_get loc ''name'')) \<noteq> k" by simp
    with Cons u show ?thesis by (simp add: build_usable update_conv')
  qed
qed

lemma build_warnings_kept:
  "set ws \<subseteq> set (snd (build_name_to_id str_strip str_lower zs (m, ws)))"
proof (induction zs arbitrary: m ws)
  case Nil
  then show ?case by simp
next
  case (Cons loc zs)
  show ?case
  proof (cases "str_strip (obj_get loc ''id'') = [] \<or> str_strip (obj_get loc ''name'') = []")
    case True
    with Cons show ?thesis by (simp add: build_unusable)
  next
    case False
    then have u: "str_strip (obj_get loc ''id'') \<noteq> []" "str_strip (obj_get loc ''name'') \<noteq> []" by auto
    show ?thesis
      unfolding build_usable [OF u]
      using Cons.IH [of "ws @ (case map_of m (str_lower (str_strip (obj_get loc ''name''))) of
                None \<Rightarrow> []
              | Some old \<Rightarrow>
                  if old \<noteq> str_strip (obj_get loc ''id'')
                  then [DuplicateLocationName (str_strip (obj_get loc ''name'')) old
                          (str_strip (obj_get loc ''id''))]
                  else [])"]
      by auto
  qed
qed

lemma build_conflict_warned:
  assumes "map_of m k = Some i" and "loc \<in> set zs"
    and "str_strip (obj_get loc ''id'') \<noteq> []" and "str_strip (obj_get loc ''name'') \<noteq> []"
    and "str_lower (str_strip (obj_get loc ''name'')) = k" and "str_strip (obj_get loc ''id'') \<noteq> i"
  shows "\<exists>n old new. DuplicateLocationName n old new \<in> set (snd (build_name_to_id str_strip str_lower zs (m, ws)))
           \<and> str_lower n = k"
  using assms
proof (induction zs arbitrary: m ws i)
  case Nil
  then show ?case by simp
next
  case (Cons z zs)
  show ?case
  proof (cases "str_strip (obj_get z ''id'') = [] \<or> str_strip (obj_get z ''name'') = []")
    case True
    with Cons.prems have "loc \<in> set zs" by auto
    from Cons.IH [OF Cons.prems(1) this Cons.prems(3-6)] True show ?thesis
      by (simp add: build_unusable)
  next
    case False
    then have u: "str_strip (obj_get z ''id'') \<noteq> []" "str_strip (obj_get z ''name'') \<noteq> []" by auto
    let ?kz = "str_lower (str_strip (obj_get z ''name''))" and ?iz = "str_strip (obj_get z ''id'')"
    let ?w = "(case map_of m ?kz of None \<Rightarrow> []
              | Some old \<Rightarrow> if old \<noteq> ?iz
                  then [DuplicateLocationName (str_strip (obj_get z ''name'')) old ?iz] else [])"
    have step: "build_name_to_id str_strip str_lower (z # zs) (m, ws) =
        build_name_to_id str_strip str_lower zs (AList.update ?kz ?iz m, ws @ ?w)"
      by (rule build_usable [OF u])
    show ?thesis
    proof (cases "?kz = k")
      case other: False
      with Cons.prems have "loc \<in> set zs" by auto
      moreover have "map_of (AList.update ?kz ?iz m) k = Some i"
        using other Cons.prems(1) by (simp add: update_conv')
      ultimately show ?thesis
        unfolding step using Cons.IH Cons.prems(3-6) by blast
    next
      case same: True
      show ?thesis
      proof (cases "?iz = i")
        case differs: False
        have "DuplicateLocationName (str_strip (obj_get z ''name'')) i ?iz \<in> set (ws @ ?w)"
          using same differs Cons.prems(1) by simp
        then have "DuplicateLocationName (str_strip (obj_get z ''name'')) i ?iz
            \<in> set (snd (build_name_to_id str_strip str_lower zs (AList.update ?kz ?iz m, ws @ ?w)))"
          using build_warnings_kept by blast
        with same show ?thesis unfolding step by blast
      next
        case equal: True
        with Cons.prems have "loc \<in> set zs" by auto
        moreover have "map_of (AList.update ?kz ?iz m) k = Some i"
          using same equal by (simp add: update_conv')
        ultimately show ?thesis
          unfolding step using Cons.IH Cons.prems(3-6) by blast
      qed
    qed
  qed
qed

lemma build_values_nonempty:
  assumes "\<forall>k v. map_of m k = Some v \<longrightarrow> v \<noteq> []"
  shows "\<forall>k v. map_of (fst (build_name_to_id str_strip str_lower zs (m, ws))) k = Some v \<longrightarrow> v \<noteq> []"
  using assms
proof (induction zs arbitrary: m ws)
  case Nil
  then show ?case by simp
next
  case (Cons z zs)
  show ?case
  proof (cases "str_strip (obj_get z ''id'') = [] \<or> str_strip (obj_get z ''name'') = []")
    case True
    with Cons show ?thesis by (simp add: build_unusable)
  next
    case False
    then have u: "str_strip (obj_get z ''id'') \<noteq> []" "str_strip (obj_get z ''name'') \<noteq> []" by auto
    have "\<forall>k v. map_of (AList.update (str_lower (str_strip (obj_get z ''name''))) (str_strip (obj_get z ''id'')) m) k = Some v
            \<longrightarrow> v \<noteq> []"
      using Cons.prems u by (auto simp add: update_conv')
    from Cons.IH [OF this] show ?thesis
      unfolding build_usable [OF u] by blast
  qed
qed

lemma build_last_wins:
  assumes u: "str_strip (obj_get loc ''id'') \<noteq> []" "str_strip (obj_get loc ''name'') \<noteq> []"
    and "\<forall>z \<in> set after. str_strip (obj_get z ''id'') \<noteq> [] \<and> str_strip (obj_get z ''name'') \<noteq> []
             \<longrightarrow> str_lower (str_strip (obj_get z ''name'')) \<noteq> str_lower (str_strip (obj_get loc ''name''))"
  shows "map_of (fst (build_name_to_id str_strip str_lower (before @ loc # after) acc))
           (str_lower (str_strip (obj_get loc ''name''))) = Some (str_strip (obj_get loc ''id''))"
proof -
  obtain m ws where acc: "build_name_to_id str_strip str_lower before acc = (m, ws)" by (cases "build_name_to_id str_strip str_lower before acc")
  show ?thesis
    using build_other_keys [OF assms(3)]
    by (simp add: build_append acc build_usable [OF u] update_conv')
qed

lemma fetch_location_lookup_Inr:
  assumes "fetch_location_lookup str_strip str_lower net tr = (Inr (name_to_id, warnings), tr1)"
  shows "\<exists>status data. net tr GET_locations = Response status (JsonList data)
           \<and> raise_for_status status = None
           \<and> build_name_to_id str_strip str_lower data ([], []) = (name_to_id, warnings)
           \<and> tr1 = tr @ [Request GET_locations]"
  using assms
  by (auto simp add: fetch_location_lookup_def Let_def
      split: outcome.splits option.splits body.splits prod.splits if_splits)

lemma fetch_location_lookup_list:
  assumes "net tr GET_locations = Response status (JsonList data)"
    and "raise_for_status status = None"
    and "build_name_to_id str_strip str_lower data ([], []) = (name_to_id, warnings)" and "name_to_id \<noteq> []"
  shows "fetch_location_lookup str_strip str_lower net tr = (Inr (name_to_id, warnings), tr @ [Request GET_locations])"
  using assms by (simp add: fetch_location_lookup_def)

lemma fetched_identifier_is_used:
  assumes "fetch_location_lookup str_strip str_lower net tr = (Inr (name_to_id, warnings), tr1)"
    and "map_of name_to_id (str_lower (d_location entry)) = Some location_id"
    and "d_tag entry = [] \<or> str_lower (d_tag entry) \<in> existing_tags"
  shows "process_entry str_lower net dry_run name_to_id existing_tags entry st
           = apply_mutations net dry_run entry location_id st"
proof -
  obtain data where "build_name_to_id str_strip str_lower data ([], []) = (name_to_id, warnings)"
    using assms(1) fetch_location_lookup_Inr by blast
  then have "\<forall>k v. map_of name_to_id k = Some v \<longrightarrow> v \<noteq> []"
    using build_values_nonempty [where m = "[]" and zs = data and ws = "[]"
        and str_strip = str_strip and str_lower = str_lower]
    by simp
  with assms(2) have "location_id \<noteq> []" by blast
  with assms(2,3) show ?thesis
    by (cases st) (auto simp add: process_entry_def)
qed

lemma mutation_loop_starts_with_request:
  assumes "attempt \<le> mx"
  shows "\<exists>evs. snd (mutation_loop net req mx bk attempt delay tr) = tr @ Request req # evs"
proof -
  obtain evs where
    "snd (mutation_loop net req mx bk (attempt + 1) (delay * bk)
            ((tr @ [Request req]) @ [Sleep delay]))
       = ((tr @ [Request req]) @ [Sleep delay]) @ evs"
    using mutation_loop_extends by blast
  with assms show ?thesis
    by (subst mutation_loop.simps) (auto simp add: Let_def split: outcome.splits option.splits)
qed

lemma apply_mutations_starts_with_patch:
  "\<exists>evs. snd (apply_mutations net False entry location_id (failures, tr))
          = tr @ Request (PATCH_atlas (d_device entry) location_id) # evs"
proof -
  obtain r tr1 where patch:
    "patch_device_location net (d_device entry) location_id False tr = (r, tr1)"
    by (cases "patch_device_location net (d_device entry) location_id False tr")
  obtain evs where first: "tr1 = tr @ Request (PATCH_atlas (d_device entry) location_id) # evs"
    using patch mutation_loop_starts_with_request
      [of 1 PATCH_MAX_RETRIES net "PATCH_atlas (d_device entry) location_id"
          PATCH_RETRY_BACKOFF 1 tr]
    by (auto simp add: patch_device_location_def PATCH_MAX_RETRIES_def)
  obtain evs' where "snd (add_tag_to_device net (d_device entry) (d_tag entry) False tr1)
      = tr1 @ evs'"
    using mutation_loop_extends
      [of net "POST_device_tags (d_device entry) (d_tag entry)" PATCH_MAX_RETRIES
          PATCH_RETRY_BACKOFF 1 1 tr1]
    by (auto simp add: add_tag_to_device_def)
  with first have second:
    "snd (add_tag_to_device net (d_device entry) (d_tag entry) False tr1)
      = tr @ Request (PATCH_atlas (d_device entry) location_id) # (evs @ evs')"
    by simp
  show ?thesis
  proof (cases r)
    case (Inl e)
    with patch first show ?thesis by (simp add: apply_mutations_def)
  next
    case (Inr u)
    show ?thesis
    proof (cases "d_tag entry = []")
      case True
      with patch Inr first show ?thesis by (simp add: apply_mutations_def)
    next
      case False
      with patch Inr second show ?thesis
        by (cases "add_tag_to_device net (d_device entry) (d_tag entry) False tr1")
           (auto simp add: apply_mutations_def split: sum.splits)
    qed
  qed
qed

text \<open>
  C6. A record whose location name, folded by \<open>str.lower()\<close>, is a key of the table that
  \<open>fetch_location_lookup\<close> returned is processed with exactly the identifier stored under
  that key: the loop body runs the mutation calls with it, and outside dry-run mode the
  first event of the record is the PATCH of the device to that identifier. When the
  remote list holds two usable entries (identifier and name not empty after stripping)
  whose names give the same key and whose identifiers differ, and no usable entry after
  the later one has that key, the fetch succeeds, the table maps the key to the later
  identifier, and a duplicate-name warning for that key is among the warnings logged.
  This holds for whatever functions \<open>str.strip()\<close> and \<open>str.lower()\<close> are.
\<close>

theorem registered_identifier_and_last_entry_wins:
  "(fetch_location_lookup str_strip str_lower net tr = (Inr (name_to_id, warnings), tr1)
      \<and> map_of name_to_id (str_lower (d_location entry)) = Some location_id
      \<and> (d_tag entry = [] \<or> str_lower (d_tag entry) \<in> existing_tags)
     \<longrightarrow> process_entry str_lower net dry_run name_to_id existing_tags entry st
           = apply_mutations net dry_run entry location_id st
         \<and> (\<not> dry_run \<longrightarrow>
              (\<exists>evs. snd (process_entry str_lower net dry_run name_to_id existing_tags entry st)
                 = snd st @ Request (PATCH_atlas (d_device entry) location_id) # evs)))
   \<and> (net tr GET_locations = Response status (JsonList (before @ loc1 # between @ loc2 # after))
      \<and> raise_for_status status = None
      \<and> str_strip (obj_get loc1 ''id'') \<noteq> [] \<and> str_strip (obj_get loc1 ''name'') \<noteq> []
      \<and> str_strip (obj_get loc2 ''id'') \<noteq> [] \<and> str_strip (obj_get loc2 ''name'') \<noteq> []
      \<and> str_lower (str_strip (obj_get loc1 ''name'')) = str_lower (str_strip (obj_get loc2 ''name''))
      \<and> str_strip (obj_get loc1 ''id'') \<noteq> str_strip (obj_get loc2 ''id'')
      \<and> (\<forall>z \<in> set after. str_strip (obj_get z ''id'') \<noteq> [] \<and> str_strip (obj_get z ''name'') \<noteq> []
             \<longrightarrow> str_lower (str_strip (obj_get z ''name'')) \<noteq> str_lower (str_strip (obj_get loc2 ''name'')))
     \<longrightarrow> (\<exists>table logged.
            fetch_location_lookup str_strip str_lower net tr = (Inr (table, logged), tr @ [Request GET_locations])
          \<and> map_of table (str_lower (str_strip (obj_get loc2 ''name''))) = Some (str_strip (obj_get loc2 ''id''))
          \<and> (\<exists>n old new. DuplicateLocationName n old new \<in> set logged
                \<and> str_lower n = str_lower (str_strip (obj_get loc2 ''name'')))))"
proof (intro conjI impI)
  assume a: "fetch_location_lookup str_strip str_lower net tr = (Inr (name_to_id, warnings), tr1)
      \<and> map_of name_to_id (str_lower (d_location entry)) = Some location_id
      \<and> (d_tag entry = [] \<or> str_lower (d_tag entry) \<in> existing_tags)"
  then have used: "process_entry str_lower net dry_run name_to_id existing_tags entry st
           = apply_mutations net dry_run entry location_id st"
    using fetched_identifier_is_used by blast
  show "process_entry str_lower net dry_run name_to_id existing_tags entry st
           = apply_mutations net dry_run entry location_id st"
    by (rule used)
  show "\<exists>evs. snd (process_entry str_lower net dry_run name_to_id existing_tags entry st)
                 = snd st @ Request (PATCH_atlas (d_device entry) location_id) # evs"
    if "\<not> dry_run"
    using that used
      apply_mutations_starts_with_patch [of net entry location_id "fst st" "snd st"]
    by simp
next
  let ?k = "str_lower (str_strip (obj_get loc2 ''name''))" and ?i2 = "str_strip (obj_get loc2 ''id'')"
  let ?i1 = "str_strip (obj_get loc1 ''id'')"
  assume b: "net tr GET_locations = Response status (JsonList (before @ loc1 # between @ loc2 # after))
      \<and> raise_for_status status = None
      \<and> str_strip (obj_get loc1 ''id'') \<noteq> [] \<and> str_strip (obj_get loc1 ''name'') \<noteq> []
      \<and> str_strip (obj_get loc2 ''id'') \<noteq> [] \<and> str_strip (obj_get loc2 ''name'') \<noteq> []
      \<and> str_lower (str_strip (obj_get loc1 ''name'')) = str_lower (str_strip (obj_get loc2 ''name''))
      \<and> str_strip (obj_get loc1 ''id'') \<noteq> str_strip (obj_get loc2 ''id'')
      \<and> (\<forall>z \<in> set after. str_strip (obj_get z ''id'') \<noteq> [] \<and> str_strip (obj_get z ''name'') \<noteq> []
             \<longrightarrow> str_lower (str_strip (obj_get z ''name'')) \<noteq> str_lower (str_strip (obj_get loc2 ''name'')))"
  then have u1: "str_strip (obj_get loc1 ''id'') \<noteq> []" "str_strip (obj_get loc1 ''name'') \<noteq> []"
    and u2: "str_strip (obj_get loc2 ''id'') \<noteq> []" "str_strip (obj_get loc2 ''name'') \<noteq> []"
    and same: "str_lower (str_strip (obj_get loc1 ''name'')) = ?k" and diff: "?i2 \<noteq> ?i1"
    and quiet: "\<forall>z \<in> set after. str_strip (obj_get z ''id'') \<noteq> [] \<and> str_strip (obj_get z ''name'') \<noteq> []
             \<longrightarrow> str_lower (str_strip (obj_get z ''name'')) \<noteq> ?k"
    by auto
  let ?data = "before @ loc1 # between @ loc2 # after"
  obtain table logged where built: "build_name_to_id str_strip str_lower ?data ([], []) = (table, logged)"
    by (cases "build_name_to_id str_strip str_lower ?data ([], [])")
  have "map_of (fst (build_name_to_id str_strip str_lower ((before @ loc1 # between) @ loc2 # after) ([], []))) ?k
          = Some ?i2"
    by (rule build_last_wins [OF u2 quiet])
  with built have last: "map_of table ?k = Some ?i2" by simp
  then have nonempty: "table \<noteq> []" by auto
  obtain m0 w0 where pre: "build_name_to_id str_strip str_lower before ([], []) = (m0, w0)"
    by (cases "build_name_to_id str_strip str_lower before ([], [])")
  let ?w1 = "w0 @ (case map_of m0 (str_lower (str_strip (obj_get loc1 ''name''))) of
                None \<Rightarrow> []
              | Some old \<Rightarrow>
                  if old \<noteq> ?i1
                  then [DuplicateLocationName (str_strip (obj_get loc1 ''name'')) old ?i1]
                  else [])"
  have split: "build_name_to_id str_strip str_lower ?data ([], []) =
      build_name_to_id str_strip str_lower (between @ loc2 # after) (AList.update ?k ?i1 m0, ?w1)"
    using build_usable [where str_strip = str_strip and str_lower = str_lower and loc = loc1
        and rest = "between @ loc2 # after" and m = m0 and ws = w0, OF u1] same
    by (simp add: build_append pre)
  from split built
  have eq: "build_name_to_id str_strip str_lower (between @ loc2 # after) (AList.update ?k ?i1 m0, ?w1)
              = (table, logged)"
    by simp
  have "\<exists>n old new. DuplicateLocationName n old new
          \<in> set (snd (build_name_to_id str_strip str_lower (between @ loc2 # after) (AList.update ?k ?i1 m0, ?w1)))
        \<and> str_lower n = ?k"
    by (rule build_conflict_warned [where loc = loc2 and i = ?i1])
       (use u2 diff in \<open>simp_all add: update_conv'\<close>)
  then have warned:
    "\<exists>n old new. DuplicateLocationName n old new \<in> set logged \<and> str_lower n = ?k"
    unfolding eq by simp
  from b have "fetch_location_lookup str_strip str_lower net tr = (Inr (table, logged), tr @ [Request GET_locations])"
    using fetch_location_lookup_list [OF _ _ built nonempty] by blast
  with last warned show "\<exists>table logged.
            fetch_location_lookup str_strip str_lower net tr = (Inr (table, logged), tr @ [Request GET_locations])
          \<and> map_of table ?k = Some ?i2
          \<and> (\<exists>n old new. DuplicateLocationName n old new \<in> set logged \<and> str_lower n = ?k)"
    by blast
qed

lemma fetch_two_hq_example:
  "fetch_location_lookup ascii_strip ascii_lower two_hq_net [] =
     (Inr ([(''hq'', ''9''), (''lab'', ''3'')], [DuplicateLocationName ''hq'' ''7'' ''9'']), [Request GET_locations])"
  by (simp add: fetch_location_lookup_def two_hq_net_def raise_for_status_def
      build_name_to_id.simps text_eval Let_def)

theorem registered_identifier_and_last_entry_wins_witness:
  "fetch_location_lookup ascii_strip ascii_lower two_hq_net [] =
     (Inr ([(''hq'', ''9''), (''lab'', ''3'')], [DuplicateLocationName ''hq'' ''7'' ''9'']), [Request GET_locations])
   \<and> map_of [(''hq'', ''9''), (''lab'', ''3'')] (ascii_lower (d_location \<lparr>d_device = ''sw1'', d_location = ''Hq'', d_tag = []\<rparr>))
       = Some ''9''
   \<and> process_entry ascii_lower two_hq_net False [(''hq'', ''9''), (''lab'', ''3'')] {}
        \<lparr>d_device = ''sw1'', d_location = ''Hq'', d_tag = []\<rparr> (0, [Request GET_locations])
       = apply_mutations two_hq_net False
        \<lparr>d_device = ''sw1'', d_location = ''Hq'', d_tag = []\<rparr> ''9'' (0, [Request GET_locations])
   \<and> (\<exists>evs.
         snd (process_entry ascii_lower two_hq_net False [(''hq'', ''9''), (''lab'', ''3'')] {}
                \<lparr>d_device = ''sw1'', d_location = ''Hq'', d_tag = []\<rparr>
                (0, [Request GET_locations]))
           = [Request GET_locations] @ Request (PATCH_atlas ''sw1'' ''9'') # evs)
   \<and> (\<exists>table logged.
         fetch_location_lookup ascii_strip ascii_lower two_hq_net [] = (Inr (table, logged), [] @ [Request GET_locations])
       \<and> map_of table ''hq'' = Some ''9''
       \<and> (\<exists>n old new. DuplicateLocationName n old new \<in> set logged \<and> ascii_lower n = ''hq''))"
proof -
  let ?e = "\<lparr>d_device = ''sw1'', d_location = ''Hq'', d_tag = []\<rparr>"
  let ?l1 = "map_of [(''id'', JStr ''7''), (''name'', JStr ''HQ'')]"
  let ?l2 = "map_of [(''id'', JStr ''9''), (''name'', JStr '' hq '')]"
  let ?l3 = "map_of [(''id'', JStr ''3''), (''name'', JStr ''Lab'')]"
  note inst = registered_identifier_and_last_entry_wins
      [where str_strip = ascii_strip and str_lower = ascii_lower
      and net = two_hq_net and tr = "[]" and name_to_id = "[(''hq'', ''9''), (''lab'', ''3'')]"
      and warnings = "[DuplicateLocationName ''hq'' ''7'' ''9'']" and ?tr1.0 = "[Request GET_locations]"
      and entry = ?e and location_id = "''9''" and existing_tags = "{}" and dry_run = False
      and st = "(0, [Request GET_locations])" and status = 200 and before = "[]" and ?loc1.0 = ?l1
      and between = "[]" and ?loc2.0 = ?l2 and after = "[?l3]"]
  have key: "map_of [(''hq'', ''9''), (''lab'', ''3'')] (ascii_lower (d_location ?e)) = Some ''9''"
    by (simp add: text_eval)
  have found: "fetch_location_lookup ascii_strip ascii_lower two_hq_net []
        = (Inr ([(''hq'', ''9''), (''lab'', ''3'')], [DuplicateLocationName ''hq'' ''7'' ''9'']),
           [Request GET_locations])
      \<and> map_of [(''hq'', ''9''), (''lab'', ''3'')] (ascii_lower (d_location ?e)) = Some ''9''
      \<and> (d_tag ?e = [] \<or> ascii_lower (d_tag ?e) \<in> {})"
    using fetch_two_hq_example key by simp
  note used = inst [THEN conjunct1, THEN mp, OF found]
  have part1: "process_entry ascii_lower two_hq_net False [(''hq'', ''9''), (''lab'', ''3'')] {} ?e (0, [Request GET_locations])
       = apply_mutations two_hq_net False ?e ''9'' (0, [Request GET_locations])"
    by (rule used [THEN conjunct1])
  have sent: "\<exists>evs.
         snd (process_entry ascii_lower two_hq_net False [(''hq'', ''9''), (''lab'', ''3'')] {} ?e
                (0, [Request GET_locations]))
           = [Request GET_locations] @ Request (PATCH_atlas ''sw1'' ''9'') # evs"
    using used [THEN conjunct2] by simp
  have part2: "\<exists>table logged.
         fetch_location_lookup ascii_strip ascii_lower two_hq_net [] = (Inr (table, logged), [] @ [Request GET_locations])
       \<and> map_of table ''hq'' = Some ''9''
       \<and> (\<exists>n old new. DuplicateLocationName n old new \<in> set logged \<and> ascii_lower n = ''hq'')"
    using inst [THEN conjunct2]
    by (simp add: two_hq_net_def raise_for_status_def text_eval)
  from fetch_two_hq_example key part1 sent part2 show ?thesis by blast
qed

section \<open>The exit status\<close>

lemma device_setup_table:
  assumes "device_setup str_strip str_lower net csv tr
             = (Inr (devices, name_to_id, existing_tags), tr1)"
  shows "\<forall>k v. map_of name_to_id k = Some v \<longrightarrow> v \<noteq> []"
proof -
  obtain ws tr0 where
    "fetch_location_lookup str_strip str_lower net tr = (Inr (name_to_id, ws), tr0)"
    using assms
    by (auto simp add: device_setup_def Let_def split: sum.splits prod.splits if_splits)
  then obtain data where
    "build_name_to_id str_strip str_lower data ([], []) = (name_to_id, ws)"
    using fetch_location_lookup_Inr by blast
  then show ?thesis
    using build_values_nonempty [where m = "[]" and zs = data and ws = "[]"
        and str_strip = str_strip and str_lower = str_lower]
    by simp
qed

text \<open>
  The loop body adds one to the counter exactly when the record fails for one of the four
  causes: its label is unknown, its location name is not in the table, the call that sets
  the location fails, or that call succeeds and the call that adds the label fails.
\<close>

lemma process_entry_count:
  assumes "\<forall>k v. map_of name_to_id k = Some v \<longrightarrow> v \<noteq> []"
  shows "fst (process_entry str_lower net dry_run name_to_id existing_tags entry (failures, tr)) =
     (if (d_tag entry \<noteq> [] \<and> str_lower (d_tag entry) \<notin> existing_tags)
         \<or> map_of name_to_id (str_lower (d_location entry)) = None
         \<or> (\<exists>location_id.
               map_of name_to_id (str_lower (d_location entry)) = Some location_id
             \<and> (isl (fst (patch_device_location net (d_device entry) location_id dry_run tr))
                \<or> (d_tag entry \<noteq> []
                    \<and> isl (fst (add_tag_to_device net (d_device entry) (d_tag entry) dry_run
                                 (snd (patch_device_location net (d_device entry) location_id
                                         dry_run tr)))))))
      then failures + 1 else failures)"
proof (cases "map_of name_to_id (str_lower (d_location entry))")
  case None
  then show ?thesis by (simp add: process_entry_def)
next
  case (Some location_id)
  with assms have ne: "location_id \<noteq> []" by blast
  obtain r tr1 where patch:
    "patch_device_location net (d_device entry) location_id dry_run tr = (r, tr1)"
    by (cases "patch_device_location net (d_device entry) location_id dry_run tr")
  obtain r2 tr2 where tag:
    "add_tag_to_device net (d_device entry) (d_tag entry) dry_run tr1 = (r2, tr2)"
    by (cases "add_tag_to_device net (d_device entry) (d_tag entry) dry_run tr1")
  show ?thesis
    using Some ne patch tag
    by (cases r; cases r2) (auto simp add: process_entry_def apply_mutations_def)
qed

lemma process_entry_step:
  "fst (process_entry str_lower net dry_run name_to_id existing_tags entry (failures, tr))
     = failures
   \<or> fst (process_entry str_lower net dry_run name_to_id existing_tags entry (failures, tr))
       = failures + 1"
  by (auto simp add: process_entry_def apply_mutations_def
      split: option.splits prod.splits sum.splits)

lemma process_devices_mono:
  "failures \<le> fst (process_devices str_lower net dry_run name_to_id existing_tags xs
                     (failures, tr))"
proof (induction xs arbitrary: failures tr)
  case Nil
  then show ?case by simp
next
  case (Cons x xs)
  obtain f1 t1 where one:
    "process_entry str_lower net dry_run name_to_id existing_tags x (failures, tr) = (f1, t1)"
    by (cases "process_entry str_lower net dry_run name_to_id existing_tags x (failures, tr)")
  then have "failures \<le> f1"
    using process_entry_step [of str_lower net dry_run name_to_id existing_tags x failures tr]
    by auto
  moreover have "f1 \<le> fst (process_devices str_lower net dry_run name_to_id existing_tags xs
                             (f1, t1))"
    by (rule Cons.IH)
  ultimately show ?case by (simp add: one)
qed

lemma failed_record_is_counted:
  assumes "process_devices str_lower net dry_run name_to_id existing_tags before st
             = (failures, tr)"
    and "fst (process_entry str_lower net dry_run name_to_id existing_tags entry (failures, tr))
           = failures + 1"
  shows "fst (process_devices str_lower net dry_run name_to_id existing_tags
                (before @ entry # rest) st) \<noteq> 0"
proof -
  obtain f1 t1 where one:
    "process_entry str_lower net dry_run name_to_id existing_tags entry (failures, tr) = (f1, t1)"
    by (cases "process_entry str_lower net dry_run name_to_id existing_tags entry (failures, tr)")
  with assms(2) have "f1 = failures + 1" by simp
  moreover have "f1 \<le> fst (process_devices str_lower net dry_run name_to_id existing_tags rest
                             (f1, t1))"
    by (rule process_devices_mono)
  ultimately show ?thesis
    by (simp add: process_devices_append assms(1) one)
qed

lemma counted_failure_has_record:
  assumes "fst (process_devices str_lower net dry_run name_to_id existing_tags xs (f0, t0))
             \<noteq> f0"
  shows "\<exists>before entry rest failures tr.
           xs = before @ entry # rest
         \<and> process_devices str_lower net dry_run name_to_id existing_tags before (f0, t0)
             = (failures, tr)
         \<and> fst (process_entry str_lower net dry_run name_to_id existing_tags entry
                  (failures, tr)) = failures + 1"
  using assms
proof (induction xs rule: rev_induct)
  case Nil
  then show ?case by simp
next
  case (snoc x xs)
  obtain f t where pre:
    "process_devices str_lower net dry_run name_to_id existing_tags xs (f0, t0) = (f, t)"
    by (cases "process_devices str_lower net dry_run name_to_id existing_tags xs (f0, t0)")
  show ?case
  proof (cases "f = f0")
    case False
    with pre snoc.IH obtain before entry rest failures tr where
      "xs = before @ entry # rest"
      "process_devices str_lower net dry_run name_to_id existing_tags before (f0, t0)
         = (failures, tr)"
      "fst (process_entry str_lower net dry_run name_to_id existing_tags entry (failures, tr))
         = failures + 1"
      by auto
    then have "xs @ [x] = before @ entry # (rest @ [x])
      \<and> process_devices str_lower net dry_run name_to_id existing_tags before (f0, t0)
          = (failures, tr)
      \<and> fst (process_entry str_lower net dry_run name_to_id existing_tags entry (failures, tr))
          = failures + 1"
      by simp
    then show ?thesis by blast
  next
    case True
    from snoc.prems have
      "fst (process_entry str_lower net dry_run name_to_id existing_tags x (f, t)) \<noteq> f0"
      by (simp add: process_devices_append pre)
    with True have
      "fst (process_entry str_lower net dry_run name_to_id existing_tags x (f, t)) = f + 1"
      using process_entry_step [of str_lower net dry_run name_to_id existing_tags x f t]
      by auto
    with pre have "xs @ [x] = xs @ x # []
      \<and> process_devices str_lower net dry_run name_to_id existing_tags xs (f0, t0) = (f, t)
      \<and> fst (process_entry str_lower net dry_run name_to_id existing_tags x (f, t)) = f + 1"
      by simp
    then show ?thesis by blast
  qed
qed

lemma geocode_locations_Nil: "geocode_locations net to_float [] tr = ([], tr)"
  by (simp add: geocode_locations_def)

lemma geocode_one_results_grow:
  "\<exists>more. fst (geocode_one net tf loc (results, tr)) = results @ more"
  by (cases "geocode_address net tf (loc_address loc) tr")
     (auto simp add: geocode_one_def split: sum.splits)

lemma geocode_locations_loop_results_grow:
  "\<exists>more. fst (geocode_locations_loop net tf locs (results, tr)) = results @ more"
proof (induction locs arbitrary: results tr)
  case Nil
  then show ?case by simp
next
  case (Cons loc locs)
  obtain r1 t1 where one: "geocode_one net tf loc (results, tr) = (r1, t1)"
    by (cases "geocode_one net tf loc (results, tr)")
  obtain more where "r1 = results @ more"
    using geocode_one_results_grow [of net tf loc results tr] one by auto
  moreover obtain more' where "fst (geocode_locations_loop net tf locs (r1, t1)) = r1 @ more'"
    using Cons.IH by blast
  ultimately have "fst (geocode_locations_loop net tf (loc # locs) (results, tr))
      = results @ (more @ more')"
    by (simp add: one)
  then show ?case by blast
qed

lemma record_with_coordinates_is_prepared:
  assumes "loc \<in> set locs" and "loc_lat loc \<noteq> None" and "loc_lng loc \<noteq> None"
  shows "fst (geocode_locations net tf locs tr) \<noteq> []"
proof -
  from assms(1) obtain before rest where locs: "locs = before @ loc # rest"
    by (auto simp add: in_set_conv_decomp)
  obtain rb tb where pre: "geocode_locations_loop net tf before ([], tr) = (rb, tb)"
    by (cases "geocode_locations_loop net tf before ([], tr)")
  let ?new = "\<lparr>res_id = loc_id loc, res_name = loc_name loc,
                res_lat = the (loc_lat loc), res_lng = the (loc_lng loc)\<rparr>"
  have one: "geocode_one net tf loc (rb, tb) = (rb @ [?new], tb)"
    using assms(2,3) by (simp add: geocode_one_def)
  obtain more where "fst (geocode_locations_loop net tf rest (rb @ [?new], tb))
      = (rb @ [?new]) @ more"
    using geocode_locations_loop_results_grow by blast
  then show ?thesis
    by (simp add: geocode_locations_def locs geocode_locations_loop_append pre one)
qed

lemma load_locations_example:
  "load_locations_from_csv ascii_strip table_float (locations_csv ''51'' ''4'') =
     Inr ([\<lparr>loc_id = ''7'', loc_name = ''HQ'', loc_address = ''1 Main St'',
            loc_lat = Some 51, loc_lng = Some 4\<rparr>], [])"
  by (simp add: load_locations_from_csv_def locations_csv_def table_float_def text_eval Let_def
      load_location_rows.simps)

lemma geocode_locations_example:
  "geocode_locations net table_float
     [\<lparr>loc_id = ''7'', loc_name = ''HQ'', loc_address = ''1 Main St'',
       loc_lat = Some 51, loc_lng = Some 4\<rparr>] tr
   = ([\<lparr>res_id = ''7'', res_name = ''HQ'', res_lat = 51, res_lng = 4\<rparr>], tr)"
  by (simp add: geocode_locations_def geocode_one_def)

text \<open>
  C1, as stated, fails for the location loader, which keeps no failure counter: the
  exception of a failed POST is logged and the loop goes on, and \<open>main\<close> returns. Here
  the only record's POST is answered with status 404 and the exit status is 0.
\<close>

theorem failed_post_exits_zero_counterexample:
  "post_single_location_to_forward (lab_net 404)
      \<lparr>res_id = ''7'', res_name = ''HQ'', res_lat = 51, res_lng = 4\<rparr> []
     = (Inl (HTTPError 404),
        [Request (POST_location \<lparr>res_id = ''7'', res_name = ''HQ'', res_lat = 51, res_lng = 4\<rparr>)])
   \<and> locater_main ascii_strip (lab_net 404) table_float False True (locations_csv ''51'' ''4'') []
     = (0, [Request (POST_location
                      \<lparr>res_id = ''7'', res_name = ''HQ'', res_lat = 51, res_lng = 4\<rparr>)])"
  by (simp add: locater_main_def load_locations_example geocode_locations_example
      post_single_location_to_forward_def POST_MAX_RETRIES_def mutation_loop_client_error
      lab_net_def)

text \<open>
  C1, amended. In the device loader, a run whose setup succeeds exits with status 0 if
  the failure counter of the loop is zero and with status 1 otherwise, and the counter
  is not zero exactly when some record failed: a record with an unknown label or with a
  location name that is not in the table makes the run exit with status 1, so does a
  record whose call that sets the location fails, or whose call that adds the label fails
  after the first call succeeded; and a run that exits with status 1 has a record that
  failed for one of these causes. In the location loader there is no counter: a run whose
  file loads exits with status 1 if no record obtained coordinates (or the dry-run file
  could not be written) and with status 0 otherwise, whatever geocoding or POST failures
  its records had; outside dry-run mode one loaded record with both coordinates is
  enough for status 0.
\<close>

theorem exit_status_of_both_pipelines:
  "(device_setup str_strip str_lower net csv tr
      = (Inr (devices, name_to_id, existing_tags), tr1) \<longrightarrow>
      fst (device_main str_strip str_lower net dry_run csv tr) =
        (if fst (process_devices str_lower net dry_run name_to_id existing_tags devices (0, tr1))
              = 0
         then 0 else 1)
    \<and> (entry \<in> set devices \<and> d_tag entry \<noteq> [] \<and> str_lower (d_tag entry) \<notin> existing_tags
        \<longrightarrow> fst (device_main str_strip str_lower net dry_run csv tr) = 1)
    \<and> (entry \<in> set devices \<and> map_of name_to_id (str_lower (d_location entry)) = None
        \<longrightarrow> fst (device_main str_strip str_lower net dry_run csv tr) = 1)
    \<and> (devices = before @ entry # rest
        \<and> process_devices str_lower net dry_run name_to_id existing_tags before (0, tr1)
            = (failures, tr')
        \<and> map_of name_to_id (str_lower (d_location entry)) = Some location_id
        \<and> (isl (fst (patch_device_location net (d_device entry) location_id dry_run tr'))
           \<or> (d_tag entry \<noteq> []
               \<and> isl (fst (add_tag_to_device net (d_device entry) (d_tag entry) dry_run
                            (snd (patch_device_location net (d_device entry) location_id
                                    dry_run tr'))))))
        \<longrightarrow> fst (device_main str_strip str_lower net dry_run csv tr) = 1)
    \<and> (fst (device_main str_strip str_lower net dry_run csv tr) = 1 \<longrightarrow>
         (\<exists>earlier record later counted trace.
            devices = earlier @ record # later
          \<and> process_devices str_lower net dry_run name_to_id existing_tags earlier (0, tr1)
              = (counted, trace)
          \<and> ((d_tag record \<noteq> [] \<and> str_lower (d_tag record) \<notin> existing_tags)
             \<or> map_of name_to_id (str_lower (d_location record)) = None
             \<or> (\<exists>identifier.
                   map_of name_to_id (str_lower (d_location record)) = Some identifier
                 \<and> (isl (fst (patch_device_location net (d_device record) identifier dry_run
                               trace))
                    \<or> (d_tag record \<noteq> []
                        \<and> isl (fst (add_tag_to_device net (d_device record) (d_tag record)
                                     dry_run
                                     (snd (patch_device_location net (d_device record)
                                             identifier dry_run trace)))))))))))
   \<and> (load_locations_from_csv str_strip to_float lcsv = Inr (locs_raw, warnings) \<longrightarrow>
      fst (locater_main str_strip net to_float dry_run write_ok lcsv tr) =
        (if fst (geocode_locations net to_float locs_raw tr) = [] then 1
         else if dry_run \<and> \<not> write_ok then 1 else 0)
    \<and> (loc \<in> set locs_raw \<and> loc_lat loc \<noteq> None \<and> loc_lng loc \<noteq> None \<and> \<not> dry_run
        \<longrightarrow> fst (locater_main str_strip net to_float dry_run write_ok lcsv tr) = 0))"
proof -
  let ?exit = "fst (device_main str_strip str_lower net dry_run csv tr)"
  let ?count = "fst (process_devices str_lower net dry_run name_to_id existing_tags devices
                       (0, tr1))"
  let ?ok = "device_setup str_strip str_lower net csv tr
               = (Inr (devices, name_to_id, existing_tags), tr1)"
  have status: "?exit = (if ?count = 0 then 0 else 1)" if ?ok
    using that by (auto simp add: device_main_def split: prod.splits)
  have failing: "?exit = 1"
    if ?ok and "devices = b @ e # r"
      and "fst (process_entry str_lower net dry_run name_to_id existing_tags e
                  (process_devices str_lower net dry_run name_to_id existing_tags b (0, tr1)))
           = fst (process_devices str_lower net dry_run name_to_id existing_tags b (0, tr1)) + 1"
    for b e r
  proof -
    obtain f t where pre:
      "process_devices str_lower net dry_run name_to_id existing_tags b (0, tr1) = (f, t)"
      by (cases "process_devices str_lower net dry_run name_to_id existing_tags b (0, tr1)")
    have "fst (process_devices str_lower net dry_run name_to_id existing_tags (b @ e # r)
                 (0, tr1)) \<noteq> 0"
      by (rule failed_record_is_counted [OF pre]) (use that(3) pre in simp)
    with that(2) status [OF that(1)] show ?thesis by simp
  qed
  have anywhere: "?exit = 1"
    if ok: ?ok and mem: "e \<in> set devices"
      and cause: "(d_tag e \<noteq> [] \<and> str_lower (d_tag e) \<notin> existing_tags)
                  \<or> map_of name_to_id (str_lower (d_location e)) = None"
    for e
  proof -
    from mem obtain b r where parts: "devices = b @ e # r"
      by (auto simp add: in_set_conv_decomp)
    obtain f t where pre:
      "process_devices str_lower net dry_run name_to_id existing_tags b (0, tr1) = (f, t)"
      by (cases "process_devices str_lower net dry_run name_to_id existing_tags b (0, tr1)")
    show ?thesis
      by (rule failing [OF ok parts])
         (use cause pre in \<open>auto simp add: process_entry_count [OF device_setup_table [OF ok]]\<close>)
  qed
  have located: "fst (locater_main str_strip net to_float dry_run write_ok lcsv tr) =
        (if fst (geocode_locations net to_float locs_raw tr) = [] then 1
         else if dry_run \<and> \<not> write_ok then 1 else 0)"
    if "load_locations_from_csv str_strip to_float lcsv = Inr (locs_raw, warnings)"
    using that by (auto simp add: locater_main_def geocode_locations_Nil split: prod.splits)
  show ?thesis
  proof (intro conjI impI)
    assume ?ok
    then show "?exit = (if ?count = 0 then 0 else 1)" by (rule status)
  next
    assume ?ok and "entry \<in> set devices \<and> d_tag entry \<noteq> []
               \<and> str_lower (d_tag entry) \<notin> existing_tags"
    then show "?exit = 1" using anywhere [of entry] by blast
  next
    assume ?ok and "entry \<in> set devices
               \<and> map_of name_to_id (str_lower (d_location entry)) = None"
    then show "?exit = 1" using anywhere [of entry] by blast
  next
    assume ok: ?ok and h: "devices = before @ entry # rest
        \<and> process_devices str_lower net dry_run name_to_id existing_tags before (0, tr1)
            = (failures, tr')
        \<and> map_of name_to_id (str_lower (d_location entry)) = Some location_id
        \<and> (isl (fst (patch_device_location net (d_device entry) location_id dry_run tr'))
           \<or> (d_tag entry \<noteq> []
               \<and> isl (fst (add_tag_to_device net (d_device entry) (d_tag entry) dry_run
                            (snd (patch_device_location net (d_device entry) location_id
                                    dry_run tr'))))))"
    then have parts: "devices = before @ entry # rest" by simp
    show "?exit = 1"
      by (rule failing [OF ok parts])
         (use h in \<open>auto simp add: process_entry_count [OF device_setup_table [OF ok]]\<close>)
  next
    assume ok: ?ok and one: "?exit = 1"
    have counted: "?count \<noteq> 0"
    proof
      assume "?count = 0"
      then have "?exit = 0" unfolding status [OF ok] by (rule if_P)
      with one show False by simp
    qed
    from counted_failure_has_record [OF counted]
    obtain b e r f t where parts: "devices = b @ e # r"
      and pre: "process_devices str_lower net dry_run name_to_id existing_tags b (0, tr1) = (f, t)"
      and failed: "fst (process_entry str_lower net dry_run name_to_id existing_tags e (f, t))
                     = f + 1"
      by blast
    from failed have cause:
      "(d_tag e \<noteq> [] \<and> str_lower (d_tag e) \<notin> existing_tags)
       \<or> map_of name_to_id (str_lower (d_location e)) = None
       \<or> (\<exists>identifier.
             map_of name_to_id (str_lower (d_location e)) = Some identifier
           \<and> (isl (fst (patch_device_location net (d_device e) identifier dry_run t))
              \<or> (d_tag e \<noteq> []
                  \<and> isl (fst (add_tag_to_device net (d_device e) (d_tag e) dry_run
                               (snd (patch_device_location net (d_device e) identifier
                                       dry_run t)))))))"
      unfolding process_entry_count [OF device_setup_table [OF ok]] by (simp split: if_splits)
    from parts pre cause
    show "\<exists>earlier record later counted trace.
            devices = earlier @ record # later
          \<and> process_devices str_lower net dry_run name_to_id existing_tags earlier (0, tr1)
              = (counted, trace)
          \<and> ((d_tag record \<noteq> [] \<and> str_lower (d_tag record) \<notin> existing_tags)
             \<or> map_of name_to_id (str_lower (d_location record)) = None
             \<or> (\<exists>identifier.
                   map_of name_to_id (str_lower (d_location record)) = Some identifier
                 \<and> (isl (fst (patch_device_location net (d_device record) identifier dry_run
                               trace))
                    \<or> (d_tag record \<noteq> []
                        \<and> isl (fst (add_tag_to_device net (d_device record) (d_tag record)
                                     dry_run
                                     (snd (patch_device_location net (d_device record)
                                             identifier dry_run trace))))))))"
      by blast
  next
    assume "load_locations_from_csv str_strip to_float lcsv = Inr (locs_raw, warnings)"
    then show "fst (locater_main str_strip net to_float dry_run write_ok lcsv tr) =
        (if fst (geocode_locations net to_float locs_raw tr) = [] then 1
         else if dry_run \<and> \<not> write_ok then 1 else 0)"
      by (rule located)
  next
    assume load: "load_locations_from_csv str_strip to_float lcsv = Inr (locs_raw, warnings)"
      and "loc \<in> set locs_raw \<and> loc_lat loc \<noteq> None \<and> loc_lng loc \<noteq> None \<and> \<not> dry_run"
    then have "fst (geocode_locations net to_float locs_raw tr) \<noteq> []" and "\<not> dry_run"
      using record_with_coordinates_is_prepared by blast+
    with located [OF load]
    show "fst (locater_main str_strip net to_float dry_run write_ok lcsv tr) = 0"
      by simp
  qed
qed

lemma device_setup_unknown_label_example:
  "device_setup ascii_strip ascii_lower (lab_net st) (devices_csv ''Edge'') [] =
     (Inr ([\<lparr>d_device = ''sw1'', d_location = ''HQ'', d_tag = ''Edge''\<rparr>,
            \<lparr>d_device = ''sw2'', d_location = ''Branch'', d_tag = []\<rparr>],
           [(''hq'', ''7''), (''branch'', ''9'')], {''core''}),
      [Request GET_locations, Request GET_device_tags])"
  by (simp add: device_setup_def load_devices_unknown_label_example fetch_location_lookup_def
      fetch_existing_tags_def lab_net_def raise_for_status_def text_eval
      build_name_to_id.simps)

lemma device_setup_unresolved_example:
  "device_setup ascii_strip ascii_lower (lab_net st) (one_device_csv ''Nowhere'') [] =
     (Inr ([\<lparr>d_device = ''sw1'', d_location = ''Nowhere'', d_tag = []\<rparr>],
           [(''hq'', ''7''), (''branch'', ''9'')], {}),
      [Request GET_locations])"
  by (simp add: device_setup_def load_devices_from_csv_def one_device_csv_def
      fetch_location_lookup_def fetch_existing_tags_def lab_net_def raise_for_status_def
      text_eval build_name_to_id.simps)

theorem exit_status_of_both_pipelines_witness:
  "device_setup ascii_strip ascii_lower (lab_net 404) (devices_csv ''Edge'') [] =
     (Inr ([\<lparr>d_device = ''sw1'', d_location = ''HQ'', d_tag = ''Edge''\<rparr>,
            \<lparr>d_device = ''sw2'', d_location = ''Branch'', d_tag = []\<rparr>],
           [(''hq'', ''7''), (''branch'', ''9'')], {''core''}),
      [Request GET_locations, Request GET_device_tags])
   \<and> ascii_lower (d_tag \<lparr>d_device = ''sw1'', d_location = ''HQ'', d_tag = ''Edge''\<rparr>)
       \<notin> {''core''}
   \<and> fst (device_main ascii_strip ascii_lower (lab_net 200) False (devices_csv ''Edge'') []) = 1
   \<and> process_devices ascii_lower (lab_net 404) False [(''hq'', ''7''), (''branch'', ''9'')]
        {''core''} [\<lparr>d_device = ''sw1'', d_location = ''HQ'', d_tag = ''Edge''\<rparr>]
        (0, [Request GET_locations, Request GET_device_tags])
       = (1, [Request GET_locations, Request GET_device_tags])
   \<and> isl (fst (patch_device_location (lab_net 404)
                  (d_device \<lparr>d_device = ''sw2'', d_location = ''Branch'', d_tag = []\<rparr>) ''9''
                  False [Request GET_locations, Request GET_device_tags]))
   \<and> fst (device_main ascii_strip ascii_lower (lab_net 404) False (devices_csv ''Edge'') []) = 1
   \<and> device_setup ascii_strip ascii_lower (lab_net 200) (one_device_csv ''Nowhere'') [] =
     (Inr ([\<lparr>d_device = ''sw1'', d_location = ''Nowhere'', d_tag = []\<rparr>],
           [(''hq'', ''7''), (''branch'', ''9'')], {}),
      [Request GET_locations])
   \<and> map_of [(''hq'', ''7''), (''branch'', ''9'')]
        (ascii_lower (d_location \<lparr>d_device = ''sw1'', d_location = ''Nowhere'', d_tag = []\<rparr>))
       = None
   \<and> fst (device_main ascii_strip ascii_lower (lab_net 200) False (one_device_csv ''Nowhere'')
            []) = 1
   \<and> load_locations_from_csv ascii_strip table_float (locations_csv ''51'' ''4'') =
       Inr ([\<lparr>loc_id = ''7'', loc_name = ''HQ'', loc_address = ''1 Main St'',
              loc_lat = Some 51, loc_lng = Some 4\<rparr>], [])
   \<and> fst (locater_main ascii_strip (lab_net 404) table_float False True
            (locations_csv ''51'' ''4'') []) = 0"
proof -
  let ?sw1 = "\<lparr>d_device = ''sw1'', d_location = ''HQ'', d_tag = ''Edge''\<rparr>"
  let ?sw2 = "\<lparr>d_device = ''sw2'', d_location = ''Branch'', d_tag = []\<rparr>"
  let ?sw3 = "\<lparr>d_device = ''sw1'', d_location = ''Nowhere'', d_tag = []\<rparr>"
  let ?tab = "[(''hq'', ''7''), (''branch'', ''9'')]"
  let ?tr1 = "[Request GET_locations, Request GET_device_tags]"
  let ?loc = "\<lparr>loc_id = ''7'', loc_name = ''HQ'', loc_address = ''1 Main St'',
               loc_lat = Some 51, loc_lng = Some 4\<rparr>"
  note ok = device_setup_unknown_label_example
  have member: "?sw1 \<in> set [?sw1, ?sw2]" and tagged: "d_tag ?sw1 \<noteq> []"
    and unknown: "ascii_lower (d_tag ?sw1) \<notin> {''core''}"
    by (simp_all add: text_eval)
  have label: "fst (device_main ascii_strip ascii_lower (lab_net 200) False
                      (devices_csv ''Edge'') []) = 1"
    using exit_status_of_both_pipelines
      [where str_strip = ascii_strip and str_lower = ascii_lower and net = "lab_net 200"
         and csv = "devices_csv ''Edge''" and tr = "[]" and devices = "[?sw1, ?sw2]"
         and name_to_id = ?tab and existing_tags = "{''core''}" and ?tr1.0 = ?tr1
         and dry_run = False and entry = ?sw1]
      ok [of 200] member tagged unknown
    by blast
  have parts: "[?sw1, ?sw2] = [?sw1] @ ?sw2 # []" by simp
  have earlier: "process_devices ascii_lower (lab_net 404) False ?tab {''core''} [?sw1]
                   (0, ?tr1) = (1, ?tr1)"
    by (simp add: process_entry_def text_eval)
  have found: "map_of ?tab (ascii_lower (d_location ?sw2)) = Some ''9''"
    by (simp add: text_eval)
  have refused: "isl (fst (patch_device_location (lab_net 404) (d_device ?sw2) ''9'' False ?tr1))"
    by (simp add: patch_device_location_def PATCH_MAX_RETRIES_def mutation_loop_client_error
        lab_net_def)
  have call: "fst (device_main ascii_strip ascii_lower (lab_net 404) False
                     (devices_csv ''Edge'') []) = 1"
    using exit_status_of_both_pipelines
      [where str_strip = ascii_strip and str_lower = ascii_lower and net = "lab_net 404"
         and csv = "devices_csv ''Edge''" and tr = "[]" and devices = "[?sw1, ?sw2]"
         and name_to_id = ?tab and existing_tags = "{''core''}" and ?tr1.0 = ?tr1
         and dry_run = False and before = "[?sw1]" and entry = ?sw2 and rest = "[]"
         and failures = 1 and tr' = ?tr1 and location_id = "''9''"]
      ok [of 404] parts earlier found refused
    by blast
  note ok' = device_setup_unresolved_example [of 200]
  have member': "?sw3 \<in> set [?sw3]"
    and missing: "map_of ?tab (ascii_lower (d_location ?sw3)) = None"
    by (simp_all add: text_eval)
  have unresolved: "fst (device_main ascii_strip ascii_lower (lab_net 200) False
                           (one_device_csv ''Nowhere'') []) = 1"
    using exit_status_of_both_pipelines
      [where str_strip = ascii_strip and str_lower = ascii_lower and net = "lab_net 200"
         and csv = "one_device_csv ''Nowhere''" and tr = "[]" and devices = "[?sw3]"
         and name_to_id = ?tab and existing_tags = "{}" and ?tr1.0 = "[Request GET_locations]"
         and dry_run = False and entry = ?sw3]
      ok' member' missing
    by blast
  have present: "?loc \<in> set [?loc]" "loc_lat ?loc \<noteq> None" "loc_lng ?loc \<noteq> None" "\<not> False"
    by simp_all
  have posted: "fst (locater_main ascii_strip (lab_net 404) table_float False True
                       (locations_csv ''51'' ''4'') []) = 0"
    using exit_status_of_both_pipelines
      [where str_strip = ascii_strip and net = "lab_net 404" and to_float = table_float
         and lcsv = "locations_csv ''51'' ''4''" and locs_raw = "[?loc]" and warnings = "[]"
         and dry_run = False and write_ok = True and tr = "[]" and loc = ?loc]
      load_locations_example present
    by blast
  show ?thesis
    using ok [of 404] unknown label earlier refused call ok' missing unresolved
      load_locations_example posted
    by blast
qed

end
